theory Spec2Isabelle
  imports Complex_Main "HOL-Library.Sublist" "HOL-Library.Char_ord" "HOL-Library.List_Lexorder"
begin

section \<open>Data model\<close>

text \<open>
  The progression logic of the application lives in one source file: the constants and
  helpers above the \<open>App\<close> component, the two handlers \<open>handleAddCustomActivity\<close> and
  \<open>handleLogActivity\<close>, the date-check effect that runs when the component is mounted, and
  the guard of the custom-duration button in \<open>LogActivityModal\<close>.

  A JavaScript number is a double. The model writes a finite number as the real it
  denotes, and as an \<open>int\<close> where the program only produces integers (XP, streak, stats,
  durations), whose sums are exact. The operations whose result is rounded to a double,
  the product, the quotient and \<open>Math.pow\<close>, are parameters of the model: nothing is
  assumed about how they round unless a theorem says so. Infinite and not-a-number
  results (a base duration of zero, a negative XP total under \<open>Math.pow\<close>) are outside the
  model.
\<close>

type_synonym ActivityType = string

datatype StatType = Strength | Knowledge | Wealth | Mind | Discipline

record Log =
  log_id :: string
  activityType :: ActivityType
  durationMinutes :: int
  xpEarned :: int
  timestamp :: int
  log_dateStr :: string
  isCritical :: bool

record CustomActivity =
  ca_id :: string
  ca_name :: string
  ca_stat :: StatType
  ca_iconKey :: string
  ca_color :: string
  ca_baseXP :: int
  ca_baseDuration :: int

record DailyQuestState =
  dateStr :: string
  completed :: "ActivityType list"
  bonusClaimed :: bool

record UserState =
  level :: int
  currentXP :: int
  totalXP :: int
  stats :: "StatType \<Rightarrow> int"
  logs :: "Log list"
  streak :: int
  lastLoginDate :: string
  unlockedAchievements :: "string list"
  dailyQuests :: DailyQuestState
  inventory :: "string list"
  customActivities :: "CustomActivity list"

datatype RewardType = CRITICAL | BONUS | ITEM | LEVEL_UP | QUEST_COMPLETE

record RewardEvent =
  rtype :: RewardType
  message :: string
  xp :: "int option"
  item :: "string option"

text \<open>An entry of \<open>DEFAULT_ACTIVITIES\<close>, and the shape \<open>allActivities\<close> maps a custom
  activity to.\<close>

record ActivityDef =
  atype :: ActivityType
  iconKey :: string
  stat :: StatType
  color :: string
  baseXP :: int
  baseDuration :: int

text \<open>
  What an achievement condition reads from outside its arguments: the UTC date of
  \<open>new Date()\<close> at the moment it runs, and the local hour \<open>getHours\<close> gives for a
  timestamp.
\<close>

record Clock =
  isoDate :: string
  getHours :: "int \<Rightarrow> int"

record Achievement =
  ach_id :: string
  title :: string
  condition :: "Clock \<Rightarrow> UserState \<Rightarrow> Log option \<Rightarrow> bool"

section \<open>Arithmetic\<close>

text \<open>The rounded operations of the language: \<open>x * y\<close>, \<open>x / y\<close> and
  \<open>Math.pow(x, y)\<close> on doubles.\<close>

record Arith =
  fmul :: "real \<Rightarrow> real \<Rightarrow> real"
  fdiv :: "real \<Rightarrow> real \<Rightarrow> real"
  fpow :: "real \<Rightarrow> real \<Rightarrow> real"

text \<open>The arithmetic that never rounds. Double arithmetic agrees with it wherever the
  exact result is a double.\<close>

definition exactArith :: Arith where
  "exactArith = \<lparr>fmul = (\<lambda>x y. x * y), fdiv = (\<lambda>x y. x / y), fpow = (\<lambda>x y. x powr y)\<rparr>"

text \<open>The product of a random draw with \<open>n\<close> is still below \<open>n\<close> after rounding, as it is
  for every double draw in the unit interval and the factors 20 and 6 of the program.\<close>

definition drawScaled :: "Arith \<Rightarrow> real \<Rightarrow> real \<Rightarrow> bool" where
  "drawScaled ar r n \<longleftrightarrow> 0 \<le> fmul ar r n \<and> fmul ar r n < n"

section \<open>Constants\<close>

definition LEVEL_BASE :: real where
  "LEVEL_BASE = 100"

definition LEVEL_MULTIPLIER :: real where
  "LEVEL_MULTIPLIER = 1.5"

text \<open>The numbers the literals \<open>0.10\<close> and \<open>0.30\<close> of the reward roll denote: the doubles
  nearest to one tenth and to three tenths. The third threshold, \<open>0.25\<close>, is a double.\<close>

definition double_0_10 :: real where
  "double_0_10 = 3602879701896397 / 36028797018963968"

definition double_0_30 :: real where
  "double_0_30 = 5404319552844595 / 18014398509481984"

definition DEFAULT_ACTIVITIES :: "ActivityDef list" where
  "DEFAULT_ACTIVITIES =
    [\<lparr>atype = ''Workout'', iconKey = ''Dumbbell'', stat = Strength, color = ''text-red-500'',
       baseXP = 40, baseDuration = 30\<rparr>,
     \<lparr>atype = ''Reading'', iconKey = ''BookOpen'', stat = Knowledge, color = ''text-blue-500'',
       baseXP = 25, baseDuration = 30\<rparr>,
     \<lparr>atype = ''Work/Study'', iconKey = ''Briefcase'', stat = Wealth, color = ''text-yellow-500'',
       baseXP = 50, baseDuration = 60\<rparr>,
     \<lparr>atype = ''Meditation'', iconKey = ''Brain'', stat = Mind, color = ''text-purple-500'',
       baseXP = 20, baseDuration = 15\<rparr>,
     \<lparr>atype = ''Skill Learning'', iconKey = ''Zap'', stat = Knowledge, color = ''text-cyan-500'',
       baseXP = 45, baseDuration = 30\<rparr>]"

text \<open>The \<open>type\<close> fields of \<open>DAILY_QUESTS\<close>; label and icon are display data.\<close>

definition DAILY_QUESTS :: "ActivityType list" where
  "DAILY_QUESTS = [''Workout'', ''Reading'', ''Work/Study'', ''Meditation'']"

definition LOOT_TABLE :: "string list" where
  "LOOT_TABLE =
    [''Potion of Focus'', ''Scroll of Wisdom'', ''Dumbbell of Giants'',
     ''Coin of Discipline'', ''Timekeeper's Hourglass'', ''Meditative Gem'']"

definition ACHIEVEMENTS_LIST :: "Achievement list" where
  "ACHIEVEMENTS_LIST =
    [\<lparr>ach_id = ''first_step'', title = ''First Step'',
       condition = (\<lambda>clk state newLog. length (logs state) \<ge> 1)\<rparr>,
     \<lparr>ach_id = ''streak_7'', title = ''On Fire'',
       condition = (\<lambda>clk state newLog. streak state \<ge> 7)\<rparr>,
     \<lparr>ach_id = ''reader'', title = ''Bookworm'',
       condition = (\<lambda>clk state newLog.
         (let readingMins =
            foldl (\<lambda>acc curr. acc + durationMinutes curr) 0
              (filter (\<lambda>l. activityType l = ''Reading'') (logs state))
          in readingMins \<ge> 30 * 60))\<rparr>,
     \<lparr>ach_id = ''daily_grind'', title = ''Daily Grind'',
       condition = (\<lambda>clk state newLog.
         (case newLog of
            None \<Rightarrow> False
          | Some nl \<Rightarrow>
              (let todayStr = isoDate clk;
                   todayXP = foldl (\<lambda>acc curr. acc + xpEarned curr) 0
                     (filter (\<lambda>l. log_dateStr l = todayStr) (logs state))
               in todayXP \<ge> 100)))\<rparr>,
     \<lparr>ach_id = ''early_riser'', title = ''Early Riser'',
       condition = (\<lambda>clk state newLog.
         (case newLog of
            None \<Rightarrow> False
          | Some nl \<Rightarrow>
              (let hour = getHours clk (timestamp nl)
               in hour < 8 \<and> hour \<ge> 4)))\<rparr>]"

definition INITIAL_STATE :: UserState where
  "INITIAL_STATE =
    \<lparr>level = 1, currentXP = 0, totalXP = 0, stats = (\<lambda>_. 0), logs = [], streak = 0,
     lastLoginDate = '''', unlockedAchievements = [],
     dailyQuests = \<lparr>dateStr = '''', completed = [], bonusClaimed = False\<rparr>,
     inventory = [], customActivities = []\<rparr>"

section \<open>Logic helpers\<close>

definition getXPForLevel :: "Arith \<Rightarrow> real \<Rightarrow> int" where
  "getXPForLevel ar lvl = \<lfloor>fmul ar LEVEL_BASE (fpow ar lvl LEVEL_MULTIPLIER)\<rfloor>"

definition getLevelFromXP :: "Arith \<Rightarrow> real \<Rightarrow> int" where
  "getLevelFromXP ar x =
    \<lfloor>fpow ar (fdiv ar x LEVEL_BASE) (fdiv ar 1 LEVEL_MULTIPLIER)\<rfloor> + 1"

text \<open>\<open>Math.round\<close> gives the nearest integer, a half going towards plus infinity; it
  does so without rounding error.\<close>

definition Math_round :: "real \<Rightarrow> int" where
  "Math_round x = \<lfloor>x + 1 / 2\<rfloor>"

definition calculateXP :: "Arith \<Rightarrow> int \<Rightarrow> int \<Rightarrow> int \<Rightarrow> int" where
  "calculateXP ar bXP bDuration duration =
    (let ratio = fdiv ar (real_of_int duration) (real_of_int bDuration)
     in Math_round (fmul ar (real_of_int bXP) ratio))"

text \<open>The decimal rendering of a number, as a template string and \<open>toString\<close> give it.\<close>

fun digits :: "nat \<Rightarrow> string" where
  "digits n =
    (if n < 10 then [char_of (48 + n)]
     else digits (n div 10) @ [char_of (48 + n mod 10)])"

definition toString :: "int \<Rightarrow> string" where
  "toString i = (if i < 0 then CHR ''-'' # digits (nat (- i)) else digits (nat i))"

section \<open>The handlers\<close>

text \<open>
  Everything \<open>handleLogActivity\<close> reads besides the profiles and its two arguments:
  \<open>todayStr\<close> (computed when the component rendered), the two \<open>Math.random()\<close> draws
  (the second one sizes the bonus or picks the loot item), \<open>yesterday\<close> (from
  \<open>Date.now()\<close> during the call), the time of \<open>new Date()\<close>, the later \<open>Date.now()\<close>
  that names the log, and the clock the achievement conditions consult.
\<close>

record LogInputs =
  in_todayStr :: string
  in_roll :: real
  in_roll2 :: real
  in_yesterday :: string
  in_nowTime :: int
  in_idNow :: int
  in_clock :: Clock

text \<open>\<open>allActivities\<close>: the built-ins followed by the custom activities, a custom
  activity being known by its name.\<close>

definition allActivities :: "UserState \<Rightarrow> ActivityDef list" where
  "allActivities gameState =
    DEFAULT_ACTIVITIES @
    map (\<lambda>c. \<lparr>atype = ca_name c, iconKey = ca_iconKey c, stat = ca_stat c, color = ca_color c,
               baseXP = ca_baseXP c, baseDuration = ca_baseDuration c\<rparr>)
      (customActivities gameState)"

definition handleAddCustomActivity :: "UserState \<Rightarrow> CustomActivity \<Rightarrow> UserState" where
  "handleAddCustomActivity prev activity =
    prev\<lparr>customActivities := customActivities prev @ [activity]\<rparr>"

text \<open>Reading \<open>LOOT_TABLE\<close> at an index; outside the table JavaScript gives
  \<open>undefined\<close>.\<close>

definition lootAt :: "int \<Rightarrow> string option" where
  "lootAt i =
    (if 0 \<le> i \<and> i < int (length LOOT_TABLE) then Some (LOOT_TABLE ! nat i) else None)"

text \<open>The block \<open>Random Rewards\<close>: the critical flag, the XP after the roll and the
  reward pushed, if any.\<close>

definition randomRewards ::
    "Arith \<Rightarrow> real \<Rightarrow> real \<Rightarrow> int \<Rightarrow> bool \<times> int \<times> RewardEvent list" where
  "randomRewards ar r r2 bXP =
    (if r < double_0_10 then
       (True, bXP * 2,
        [\<lparr>rtype = CRITICAL, message = ''Critical Success! XP Doubled!'',
          xp = Some (bXP * 2), item = None\<rparr>])
     else if r < 0.25 then
       (let bonus = \<lfloor>fmul ar r2 20\<rfloor> + 10
        in (False, bXP + bonus,
            [\<lparr>rtype = BONUS, message = ''Bonus Focus!'', xp = Some bonus, item = None\<rparr>]))
     else if r < double_0_30 then
       (let it = lootAt \<lfloor>fmul ar r2 (real (length LOOT_TABLE))\<rfloor>
        in (False, bXP,
            [\<lparr>rtype = ITEM, message = ''You found an item!'', xp = None, item = it\<rparr>]))
     else (False, bXP, []))"

text \<open>The block \<open>Streak Logic\<close>: the new streak, the XP it adds and the reward pushed.\<close>

definition streakLogic :: "UserState \<Rightarrow> string \<Rightarrow> string \<Rightarrow> int \<times> int \<times> RewardEvent list" where
  "streakLogic gameState today yest =
    (let lastLogDate = lastLoginDate gameState in
     if lastLogDate \<noteq> today then
       (let newStreak = (if lastLogDate = yest then streak gameState + 1 else 1)
        in if newStreak > 0 \<and> newStreak mod 7 = 0
           then (newStreak, 100,
                 [\<lparr>rtype = BONUS, message = ''7 Day Streak Bonus!'', xp = Some 100, item = None\<rparr>])
           else (newStreak, 0, []))
     else (streak gameState, 0, []))"

text \<open>The block \<open>Daily Quest Logic\<close>: the tracker after the log, the XP it adds and the
  reward pushed.\<close>

definition dailyQuestLogic ::
    "DailyQuestState \<Rightarrow> ActivityType \<Rightarrow> DailyQuestState \<times> int \<times> RewardEvent list" where
  "dailyQuestLogic dq ty =
    (let isQuestType = (\<exists>q \<in> set DAILY_QUESTS. q = ty) in
     if isQuestType \<and> ty \<notin> set (completed dq) then
       (let dq1 = dq\<lparr>completed := completed dq @ [ty]\<rparr>
        in if length (completed dq1) = 4 \<and> \<not> bonusClaimed dq1
           then (dq1\<lparr>bonusClaimed := True\<rparr>, 80,
                 [\<lparr>rtype = QUEST_COMPLETE, message = ''Daily Quests Completed!'',
                   xp = Some 80, item = None\<rparr>])
           else (dq1, 0, []))
     else (dq, 0, []))"

text \<open>The \<open>forEach\<close> over the achievement list, threading \<open>newUnlocked\<close> and
  \<open>newRewards\<close>.\<close>

fun unlockLoop ::
    "Achievement list \<Rightarrow> Clock \<Rightarrow> UserState \<Rightarrow> Log \<Rightarrow> string list \<times> RewardEvent list
      \<Rightarrow> string list \<times> RewardEvent list" where
  "unlockLoop [] clk tempState newLog acc = acc"
| "unlockLoop (ach # rest) clk tempState newLog (newUnlocked, newRewards) =
    unlockLoop rest clk tempState newLog
      (if ach_id ach \<notin> set newUnlocked \<and> condition ach clk tempState (Some newLog)
       then (newUnlocked @ [ach_id ach],
             newRewards @
             [\<lparr>rtype = BONUS, message = ''Achievement: '' @ title ach, xp = None, item = None\<rparr>])
       else (newUnlocked, newRewards))"

text \<open>The log entry built for the event.\<close>

definition mkLog :: "ActivityType \<Rightarrow> int \<Rightarrow> int \<Rightarrow> bool \<Rightarrow> LogInputs \<Rightarrow> Log" where
  "mkLog ty duration totalNewXP isCrit inp =
    \<lparr>log_id = toString (in_idNow inp), activityType = ty, durationMinutes = duration,
     xpEarned = totalNewXP, timestamp = in_nowTime inp, log_dateStr = in_todayStr inp,
     isCritical = isCrit\<rparr>"

text \<open>The block \<open>Update Stats\<close>.\<close>

definition updateStats :: "(StatType \<Rightarrow> int) \<Rightarrow> StatType \<Rightarrow> int \<Rightarrow> (StatType \<Rightarrow> int)" where
  "updateStats st k bXP =
    (let newStats = st(k := st k + bXP)
     in newStats(Discipline := newStats Discipline + 5))"

text \<open>The block \<open>Update Level\<close>: the reward pushed when the new level is higher.\<close>

definition levelUpReward :: "int \<Rightarrow> int \<Rightarrow> RewardEvent list" where
  "levelUpReward oldLevel newLevel =
    (if newLevel > oldLevel
     then [\<lparr>rtype = LEVEL_UP, message = ''Level '' @ toString newLevel @ '' Reached!'',
            xp = None, item = None\<rparr>]
     else [])"

text \<open>The inventory after the event: the item of the first \<open>ITEM\<close> reward, if it has one,
  is appended.\<close>

definition addLoot :: "string list \<Rightarrow> RewardEvent list \<Rightarrow> string list" where
  "addLoot oldInventory newRewards =
    (case find (\<lambda>r. rtype r = ITEM) newRewards of
       None \<Rightarrow> oldInventory
     | Some itemReward \<Rightarrow>
         (case item itemReward of
            None \<Rightarrow> oldInventory
          | Some i \<Rightarrow> if i \<noteq> [] then oldInventory @ [i] else oldInventory))"

text \<open>
  \<open>handleLogActivity\<close>. The handler is a closure of one render of the component:
  \<open>gameState\<close> is the profile of that render, from which everything is computed, and
  \<open>prev\<close> is the profile the state updater receives, the current one, of which the
  updater reads \<open>currentXP\<close> and \<open>logs\<close> and keeps the fields it does not set. The two are
  the same profile when the handler of the latest render is called.

  \<open>None\<close> is the early return for an activity type that is not in \<open>allActivities\<close>: no
  state update is requested and nothing is queued. Otherwise the result is the profile
  the updater returns and the rewards appended to the queue. Sound and vibration are left
  out.
\<close>

definition handleLogActivity ::
    "Arith \<Rightarrow> UserState \<Rightarrow> UserState \<Rightarrow> ActivityType \<Rightarrow> int \<Rightarrow> LogInputs
      \<Rightarrow> (UserState \<times> RewardEvent list) option" where
  "handleLogActivity ar gameState prev ty duration inp =
    (case find (\<lambda>a. atype a = ty) (allActivities gameState) of
       None \<Rightarrow> None
     | Some activityDef \<Rightarrow>
        (let bXP = calculateXP ar (baseXP activityDef) (baseDuration activityDef) duration;
             (isCrit, xp1, rewards1) = randomRewards ar (in_roll inp) (in_roll2 inp) bXP;
             (newStreak, xpS, rewardsS) =
               streakLogic gameState (in_todayStr inp) (in_yesterday inp);
             (currentDailyState, xpQ, rewardsQ) = dailyQuestLogic (dailyQuests gameState) ty;
             totalNewXP = xp1 + xpS + xpQ;
             newLog = mkLog ty duration totalNewXP isCrit inp;
             newStats = updateStats (stats gameState) (stat activityDef) bXP;
             newTotalXP = totalXP gameState + totalNewXP;
             newLevel = getLevelFromXP ar (real_of_int newTotalXP);
             rewardsL = levelUpReward (level gameState) newLevel;
             tempState = gameState\<lparr>logs := newLog # logs gameState, streak := newStreak,
                                     totalXP := newTotalXP\<rparr>;
             (newUnlocked, newRewards) =
               unlockLoop ACHIEVEMENTS_LIST (in_clock inp) tempState newLog
                 (unlockedAchievements gameState, rewards1 @ rewardsS @ rewardsQ @ rewardsL);
             newInventory = addLoot (inventory gameState) newRewards
         in Some (prev\<lparr>level := newLevel,
                        currentXP := currentXP prev + totalNewXP,
                        totalXP := newTotalXP,
                        stats := newStats,
                        logs := newLog # logs prev,
                        streak := newStreak,
                        lastLoginDate := in_todayStr inp,
                        unlockedAchievements := newUnlocked,
                        dailyQuests := currentDailyState,
                        inventory := newInventory\<rparr>,
                  newRewards)))"

text \<open>
  The effect that runs once when the component is mounted: a tracker of another day is
  replaced by an empty one for today, and a last log older than yesterday clears the
  streak. Date strings compare as JavaScript strings do, character by character.
\<close>

definition initDateCheck :: "string \<Rightarrow> string \<Rightarrow> UserState \<Rightarrow> UserState" where
  "initDateCheck today yest prev =
    (let newState =
           (if dateStr (dailyQuests prev) \<noteq> today
            then prev\<lparr>dailyQuests := \<lparr>dateStr = today, completed = [], bonusClaimed = False\<rparr>\<rparr>
            else prev)
     in if lastLoginDate prev \<noteq> today
        then (if lastLoginDate prev \<noteq> [] \<and> lastLoginDate prev < yest
              then newState\<lparr>streak := 0\<rparr> else newState)
        else newState)"

text \<open>
  \<open>LogActivityModal\<close>: \<open>handleQuickLog\<close> passes a duration on when an activity is
  selected (\<open>null\<close> and the empty string are falsy), and the button beside the
  custom-duration field calls it when \<open>parseInt\<close> of the field is greater than zero
  (\<open>None\<close> stands for \<open>NaN\<close>).
\<close>

definition handleQuickLog ::
    "Arith \<Rightarrow> UserState \<Rightarrow> UserState \<Rightarrow> ActivityType option \<Rightarrow> int \<Rightarrow> LogInputs
      \<Rightarrow> (UserState \<times> RewardEvent list) option" where
  "handleQuickLog ar gameState prev selectedType duration inp =
    (case selectedType of
       None \<Rightarrow> None
     | Some ty \<Rightarrow>
         if ty \<noteq> [] then handleLogActivity ar gameState prev ty duration inp else None)"

definition customDurationClick ::
    "Arith \<Rightarrow> UserState \<Rightarrow> UserState \<Rightarrow> ActivityType option \<Rightarrow> int option \<Rightarrow> LogInputs
      \<Rightarrow> (UserState \<times> RewardEvent list) option" where
  "customDurationClick ar gameState prev selectedType parsed inp =
    (case parsed of
       None \<Rightarrow> None
     | Some val \<Rightarrow>
         if val > 0 then handleQuickLog ar gameState prev selectedType val inp else None)"

text \<open>The durations of the quick buttons of \<open>LogActivityModal\<close>.\<close>

definition QUICK_DURATIONS :: "int list" where
  "QUICK_DURATIONS = [15, 30, 45, 60, 90, 120]"

section \<open>Runs of the application\<close>

text \<open>
  One logged activity through the handler of the latest render, as the application sees
  it: when the handler returns early the profile stays as it is and nothing is queued.
\<close>

record LogEvent =
  ev_type :: ActivityType
  ev_duration :: int
  ev_inputs :: LogInputs

definition applyLog :: "Arith \<Rightarrow> UserState \<Rightarrow> LogEvent \<Rightarrow> UserState \<times> RewardEvent list" where
  "applyLog ar s e =
    (case handleLogActivity ar s s (ev_type e) (ev_duration e) (ev_inputs e) of
       None \<Rightarrow> (s, [])
     | Some r \<Rightarrow> r)"

text \<open>The successive results of a sequence of logged activities: after each one, the
  profile and the rewards it queued.\<close>

fun runLogs ::
    "Arith \<Rightarrow> UserState \<Rightarrow> LogEvent list \<Rightarrow> (UserState \<times> RewardEvent list) list" where
  "runLogs ar s [] = []"
| "runLogs ar s (e # es) = (let r = applyLog ar s e in r # runLogs ar (fst r) es)"

definition finalState :: "Arith \<Rightarrow> UserState \<Rightarrow> LogEvent list \<Rightarrow> UserState" where
  "finalState ar s es = (if es = [] then s else fst (last (runLogs ar s es)))"

definition questRewards :: "RewardEvent list \<Rightarrow> RewardEvent list" where
  "questRewards rs = filter (\<lambda>r. rtype r = QUEST_COMPLETE) rs"

text \<open>The reward the daily-quest block pushes.\<close>

definition questBonus :: RewardEvent where
  "questBonus =
    \<lparr>rtype = QUEST_COMPLETE, message = ''Daily Quests Completed!'', xp = Some 80,
     item = None\<rparr>"


text \<open>The tracker's completed list is a set of quest types: no repetition, and nothing
  but the four quest types.\<close>

definition trackerOK :: "UserState \<Rightarrow> bool" where
  "trackerOK s \<longleftrightarrow>
    distinct (completed (dailyQuests s)) \<and> set (completed (dailyQuests s)) \<subseteq> set DAILY_QUESTS"

definition allQuestsDone :: "UserState \<Rightarrow> bool" where
  "allQuestsDone s \<longleftrightarrow> set (completed (dailyQuests s)) = set DAILY_QUESTS"

text \<open>
  The profiles the application can reach from \<open>INITIAL_STATE\<close>: by the date check at
  start-up, by adding a custom activity (the form always gives it a base duration of 30
  minutes; any non-zero one is admitted here) and by logging an activity. The handler that
  logs may be the one of an earlier render, so that the profile it computes from and the
  current profile differ; any two reachable profiles are admitted for them here, which is
  at least what the application allows.
\<close>

inductive reachable :: "Arith \<Rightarrow> UserState \<Rightarrow> bool" for ar :: Arith where
  reach_init: "reachable ar INITIAL_STATE"
| reach_date: "reachable ar s \<Longrightarrow> reachable ar (initDateCheck today yest s)"
| reach_add:
    "reachable ar s \<Longrightarrow> ca_baseDuration a \<noteq> 0 \<Longrightarrow> reachable ar (handleAddCustomActivity s a)"
| reach_log:
    "reachable ar g \<Longrightarrow> reachable ar p \<Longrightarrow>
     handleLogActivity ar g p ty d inp = Some (s', rs) \<Longrightarrow> reachable ar s'"

text \<open>Two achievement entries that differ at most in the condition, and in that only if
  the achievement is already in the given list of unlocked ones.\<close>

definition sameUnlessUnlocked :: "string list \<Rightarrow> Achievement \<Rightarrow> Achievement \<Rightarrow> bool" where
  "sameUnlessUnlocked un a b \<longleftrightarrow>
    ach_id a = ach_id b \<and> title a = title b \<and>
    (ach_id a \<notin> set un \<longrightarrow> condition a = condition b)"

section \<open>Example profiles and inputs\<close>

text \<open>Concrete values on which the handlers are run further down. The quiet inputs
  draw no roll reward (\<open>0.5\<close>), at noon of 2 January 2024; the lucky ones draw a critical
  success.\<close>

definition exampleClock :: Clock where
  "exampleClock = \<lparr>isoDate = ''2024-01-02'', getHours = (\<lambda>_. 12)\<rparr>"

definition quietInputs :: LogInputs where
  "quietInputs =
    \<lparr>in_todayStr = ''2024-01-02'', in_roll = 0.5, in_roll2 = 0.5,
     in_yesterday = ''2024-01-01'', in_nowTime = 1704196800000, in_idNow = 1704196800000,
     in_clock = exampleClock\<rparr>"

definition luckyInputs :: LogInputs where
  "luckyInputs = quietInputs\<lparr>in_roll := 0.0625\<rparr>"

definition dayBeforeInputs :: LogInputs where
  "dayBeforeInputs =
    \<lparr>in_todayStr = ''2024-01-01'', in_roll = 0.5, in_roll2 = 0.5,
     in_yesterday = ''2023-12-31'', in_nowTime = 1704110400000, in_idNow = 1704110400000,
     in_clock = \<lparr>isoDate = ''2024-01-01'', getHours = (\<lambda>_. 12)\<rparr>\<rparr>"

text \<open>A 30-minute log of an activity with the quiet inputs.\<close>

definition quietLog :: "ActivityType \<Rightarrow> LogEvent" where
  "quietLog ty = \<lparr>ev_type = ty, ev_duration = 30, ev_inputs = quietInputs\<rparr>"

text \<open>The application is started on 1 January, a workout is logged, and it stays open
  over midnight.\<close>

definition overnightState :: "Arith \<Rightarrow> UserState" where
  "overnightState ar =
    fst (applyLog ar (initDateCheck ''2024-01-01'' ''2023-12-31'' INITIAL_STATE)
          \<lparr>ev_type = ''Workout'', ev_duration = 30, ev_inputs = dayBeforeInputs\<rparr>)"

text \<open>
  The application is started on 1 January and stays open over midnight; on 2 January the
  four quests are logged, the application is started again, and the four quests are
  logged again.
\<close>

definition startedDayBefore :: UserState where
  "startedDayBefore = initDateCheck ''2024-01-01'' ''2023-12-31'' INITIAL_STATE"

definition fourQuests :: "LogEvent list" where
  "fourQuests = map quietLog [''Workout'', ''Reading'', ''Work/Study'', ''Meditation'']"

definition restarted :: "Arith \<Rightarrow> UserState" where
  "restarted ar =
    initDateCheck ''2024-01-02'' ''2024-01-01'' (finalState ar startedDayBefore fourQuests)"

text \<open>A custom activity named like the first built-in one, as the form would create it.\<close>

definition workoutAgain :: CustomActivity where
  "workoutAgain =
    \<lparr>ca_id = ''1704196800000'', ca_name = ''Workout'', ca_stat = Strength,
     ca_iconKey = ''Sword'', ca_color = ''text-red-500'', ca_baseXP = 30,
     ca_baseDuration = 30\<rparr>"

text \<open>A profile last used eight days before 2 January 2024, with a streak of five.\<close>

definition gapState :: UserState where
  "gapState = INITIAL_STATE\<lparr>streak := 5, lastLoginDate := ''2023-12-25''\<rparr>"

text \<open>A profile one XP short of level 2 that has already logged today.\<close>

definition almostLevel2 :: UserState where
  "almostLevel2 =
    INITIAL_STATE\<lparr>currentXP := 99, totalXP := 99, streak := 1,
      lastLoginDate := ''2024-01-02'', unlockedAchievements := [''first_step''],
      dailyQuests := \<lparr>dateStr = ''2024-01-02'', completed = [''Workout''],
                      bonusClaimed = False\<rparr>\<rparr>"

text \<open>The profile after one workout logged from the initial profile.\<close>

definition afterWorkout :: UserState where
  "afterWorkout = fst (applyLog exactArith INITIAL_STATE (quietLog ''Workout''))"

text \<open>The profile after a reading session logged next, by the handler of the render
  that shows the profile after the workout.\<close>

definition afterReading :: UserState where
  "afterReading = fst (applyLog exactArith afterWorkout (quietLog ''Reading''))"

section \<open>Leveling\<close>

lemma cube_of_powr: "0 \<le> a \<Longrightarrow> (a powr (2 / 3)) ^ 3 = a ^ 2" for a :: real
proof (cases "a = 0")
  case True
  then show ?thesis by simp
next
  case False
  assume nonneg: "0 \<le> a"
  have "(a powr (2 / 3)) ^ 3 = a powr (of_nat 3 * (2 / 3))"
    using False by (rule powr_power)
  also have "\<dots> = a powr 2" by simp
  also have "\<dots> = a ^ 2" using nonneg by simp
  finally show ?thesis .
qed

lemma square_of_powr: "0 \<le> a \<Longrightarrow> (a powr (3 / 2)) ^ 2 = a ^ 3" for a :: real
proof (cases "a = 0")
  case True
  then show ?thesis by simp
next
  case False
  assume nonneg: "0 \<le> a"
  have "(a powr (3 / 2)) ^ 2 = a powr (of_nat 2 * (3 / 2))"
    using False by (rule powr_power)
  also have "\<dots> = a powr 3" by simp
  also have "\<dots> = a ^ 3" using nonneg by simp
  finally show ?thesis .
qed

text \<open>The level of an XP total in the arithmetic that never rounds, without the power:
  level \<open>k + 1\<close> holds from \<open>100 * k ^ 1.5\<close> up to, and not including,
  \<open>100 * (k + 1) ^ 1.5\<close>.\<close>

lemma getLevelFromXP_eqI:
  fixes x :: real and k :: int
  assumes "0 \<le> x" and "0 \<le> k"
    and "10000 * real_of_int k ^ 3 \<le> x ^ 2"
    and "x ^ 2 < 10000 * (real_of_int k + 1) ^ 3"
  shows "getLevelFromXP exactArith x = k + 1"
proof -
  define y where "y = (x / 100) powr (2 / 3)"
  have y0: "0 \<le> y" by (simp add: y_def)
  have y3: "y ^ 3 = (x / 100) ^ 2"
    unfolding y_def using assms(1) by (intro cube_of_powr) simp
  have "real_of_int k ^ 3 \<le> y ^ 3"
    using assms(3) by (simp add: y3 power_divide)
  then have lo: "real_of_int k \<le> y"
    using y0 assms(2) by simp
  have "y ^ 3 < (real_of_int k + 1) ^ 3"
    using assms(4) by (simp add: y3 power_divide)
  then have hi: "y < real_of_int k + 1"
    using assms(2) by (intro power_less_imp_less_base[of y 3]) auto
  have "\<lfloor>y\<rfloor> = k"
    using lo hi by (simp add: floor_unique)
  then show ?thesis
    by (simp add: getLevelFromXP_def exactArith_def LEVEL_BASE_def LEVEL_MULTIPLIER_def y_def)
qed

lemma getXPForLevel_eqI:
  fixes l :: real and n :: int
  assumes "0 \<le> l" and "0 \<le> n"
    and "real_of_int n ^ 2 \<le> 10000 * l ^ 3"
    and "10000 * l ^ 3 < (real_of_int n + 1) ^ 2"
  shows "getXPForLevel exactArith l = n"
proof -
  define y where "y = 100 * l powr (3 / 2)"
  have y0: "0 \<le> y" by (simp add: y_def)
  have y2: "y ^ 2 = 10000 * l ^ 3"
    unfolding y_def using assms(1) by (simp add: power_mult_distrib square_of_powr)
  have "real_of_int n ^ 2 \<le> y ^ 2"
    using assms(3) by (simp add: y2)
  then have lo: "real_of_int n \<le> y"
    using y0 assms(2) by simp
  have "y ^ 2 < (real_of_int n + 1) ^ 2"
    using assms(4) by (simp add: y2)
  then have hi: "y < real_of_int n + 1"
    using assms(2) by (intro power_less_imp_less_base[of y 2]) auto
  have "\<lfloor>y\<rfloor> = n"
    using lo hi by (simp add: floor_unique)
  then show ?thesis
    by (simp add: getXPForLevel_def exactArith_def LEVEL_BASE_def LEVEL_MULTIPLIER_def y_def)
qed

lemma getXPForLevel_2: "getXPForLevel exactArith 2 = 282"
  by (rule getXPForLevel_eqI) simp_all

lemma getLevelFromXP_282: "getLevelFromXP exactArith 282 = 2"
  using getLevelFromXP_eqI[of 282 1] by simp

lemma getLevelFromXP_281: "getLevelFromXP exactArith 281 = 2"
  using getLevelFromXP_eqI[of 281 1] by simp

lemma getLevelFromXP_283: "getLevelFromXP exactArith 283 = 3"
  using getLevelFromXP_eqI[of 283 2] by simp

text \<open>
  Claim C1. The claim asks that for every level \<open>L \<ge> 1\<close> the XP total
  \<open>getXPForLevel L - 1\<close> is still level \<open>L\<close> and the total \<open>getXPForLevel L\<close> is level
  \<open>L + 1\<close>. At \<open>L = 2\<close> the second half fails: \<open>getXPForLevel 2\<close> is 282, the floor of
  \<open>282.84...\<close>, and both 281 and 282 XP are level 2; level 3 starts at 283 XP: the floor
  in \<open>getXPForLevel\<close> puts the threshold one XP below the total at which
  \<open>getLevelFromXP\<close> changes. The numbers are those of the arithmetic that never rounds;
  none of them is near enough to an integer for rounding to change its floor.
\<close>

theorem level_boundary_fails_at_level_2:
  "getXPForLevel exactArith 2 = 282 \<and>
   getLevelFromXP exactArith (real_of_int (getXPForLevel exactArith 2) - 1) = 2 \<and>
   getLevelFromXP exactArith (real_of_int (getXPForLevel exactArith 2)) = 2 \<and>
   getLevelFromXP exactArith (real_of_int (getXPForLevel exactArith 2)) \<noteq> 2 + 1 \<and>
   getLevelFromXP exactArith (real_of_int (getXPForLevel exactArith 2) + 1) = 3"
  by (simp add: getXPForLevel_2 getLevelFromXP_281 getLevelFromXP_282 getLevelFromXP_283)

section \<open>The handler, taken apart\<close>

lemma getLevelFromXP_below_100:
  "0 \<le> x \<Longrightarrow> x < 100 \<Longrightarrow> getLevelFromXP exactArith x = 1"
proof -
  assume a: "0 \<le> x" "x < 100"
  then have "x ^ 2 < 100 ^ 2"
    by (intro power_strict_mono) auto
  with a getLevelFromXP_eqI[of x 0] show ?thesis by simp
qed

lemma getLevelFromXP_100: "getLevelFromXP exactArith 100 = 2"
  using getLevelFromXP_eqI[of 100 1] by simp

lemma drawScaled_exactArith:
  "0 \<le> r \<Longrightarrow> r < 1 \<Longrightarrow> 0 < n \<Longrightarrow> drawScaled exactArith r n"
  by (simp add: drawScaled_def exactArith_def)

text \<open>The equations that evaluate the handlers on the example inputs, in the arithmetic
  that never rounds.\<close>

lemmas eval_defs =
  handleLogActivity_def allActivities_def DEFAULT_ACTIVITIES_def calculateXP_def
  Math_round_def randomRewards_def streakLogic_def dailyQuestLogic_def DAILY_QUESTS_def
  mkLog_def updateStats_def levelUpReward_def ACHIEVEMENTS_LIST_def addLoot_def Let_def
  INITIAL_STATE_def getLevelFromXP_below_100 getLevelFromXP_100 quietInputs_def
  exampleClock_def dayBeforeInputs_def applyLog_def initDateCheck_def double_0_10_def
  double_0_30_def quietLog_def luckyInputs_def

lemma exactArith_ops [simp]:
  "fmul exactArith x y = x * y" "fdiv exactArith x y = x / y" "fpow exactArith x y = x powr y"
  by (simp_all add: exactArith_def)

text \<open>What a successful call of the handler computed, step by step.\<close>

lemma handleLogActivity_SomeE:
  assumes "handleLogActivity ar g p ty d inp = Some (s', rs)"
  obtains adef isCrit xp1 rewards1 newStreak xpS rewardsS dq xpQ rewardsQ newUnlocked where
    "find (\<lambda>a. atype a = ty) (allActivities g) = Some adef"
    "randomRewards ar (in_roll inp) (in_roll2 inp)
        (calculateXP ar (baseXP adef) (baseDuration adef) d) = (isCrit, xp1, rewards1)"
    "streakLogic g (in_todayStr inp) (in_yesterday inp) = (newStreak, xpS, rewardsS)"
    "dailyQuestLogic (dailyQuests g) ty = (dq, xpQ, rewardsQ)"
    "unlockLoop ACHIEVEMENTS_LIST (in_clock inp)
        (g\<lparr>logs := mkLog ty d (xp1 + xpS + xpQ) isCrit inp # logs g, streak := newStreak,
            totalXP := totalXP g + (xp1 + xpS + xpQ)\<rparr>)
        (mkLog ty d (xp1 + xpS + xpQ) isCrit inp)
        (unlockedAchievements g,
         rewards1 @ rewardsS @ rewardsQ @
         levelUpReward (level g)
           (getLevelFromXP ar (real_of_int (totalXP g + (xp1 + xpS + xpQ)))))
      = (newUnlocked, rs)"
    "s' = p\<lparr>level := getLevelFromXP ar (real_of_int (totalXP g + (xp1 + xpS + xpQ))),
            currentXP := currentXP p + (xp1 + xpS + xpQ),
            totalXP := totalXP g + (xp1 + xpS + xpQ),
            stats := updateStats (stats g) (stat adef)
                       (calculateXP ar (baseXP adef) (baseDuration adef) d),
            logs := mkLog ty d (xp1 + xpS + xpQ) isCrit inp # logs p,
            streak := newStreak,
            lastLoginDate := in_todayStr inp,
            unlockedAchievements := newUnlocked,
            dailyQuests := dq,
            inventory := addLoot (inventory g) rs\<rparr>"
proof -
  from assms obtain adef where f: "find (\<lambda>a. atype a = ty) (allActivities g) = Some adef"
    by (auto simp: handleLogActivity_def split: option.splits)
  obtain isCrit xp1 rewards1 where
    r: "randomRewards ar (in_roll inp) (in_roll2 inp)
          (calculateXP ar (baseXP adef) (baseDuration adef) d) = (isCrit, xp1, rewards1)"
    by (rule prod_cases3)
  obtain newStreak xpS rewardsS where
    st: "streakLogic g (in_todayStr inp) (in_yesterday inp) = (newStreak, xpS, rewardsS)"
    by (rule prod_cases3)
  obtain dq xpQ rewardsQ where q: "dailyQuestLogic (dailyQuests g) ty = (dq, xpQ, rewardsQ)"
    by (rule prod_cases3)
  obtain newUnlocked newRewards where
    u: "unlockLoop ACHIEVEMENTS_LIST (in_clock inp)
        (g\<lparr>logs := mkLog ty d (xp1 + xpS + xpQ) isCrit inp # logs g, streak := newStreak,
            totalXP := totalXP g + (xp1 + xpS + xpQ)\<rparr>)
        (mkLog ty d (xp1 + xpS + xpQ) isCrit inp)
        (unlockedAchievements g,
         rewards1 @ rewardsS @ rewardsQ @
         levelUpReward (level g)
           (getLevelFromXP ar (real_of_int (totalXP g + (xp1 + xpS + xpQ)))))
      = (newUnlocked, newRewards)"
    by (rule prod.exhaust)
  from assms have "rs = newRewards"
    and "s' = p\<lparr>level := getLevelFromXP ar (real_of_int (totalXP g + (xp1 + xpS + xpQ))),
            currentXP := currentXP p + (xp1 + xpS + xpQ),
            totalXP := totalXP g + (xp1 + xpS + xpQ),
            stats := updateStats (stats g) (stat adef)
                       (calculateXP ar (baseXP adef) (baseDuration adef) d),
            logs := mkLog ty d (xp1 + xpS + xpQ) isCrit inp # logs p,
            streak := newStreak,
            lastLoginDate := in_todayStr inp,
            unlockedAchievements := newUnlocked,
            dailyQuests := dq,
            inventory := addLoot (inventory g) newRewards\<rparr>"
    unfolding handleLogActivity_def Let_def f r st q option.case prod.case u by auto
  with f r st q u that show thesis by blast
qed

lemma find_Some_mem: "find P xs = Some x \<Longrightarrow> x \<in> set xs \<and> P x"
  by (induction xs) (auto split: if_splits)

lemma handleLogActivity_known:
  "handleLogActivity ar g p ty d inp \<noteq> None \<longleftrightarrow> (\<exists>a \<in> set (allActivities g). atype a = ty)"
proof (cases "find (\<lambda>a. atype a = ty) (allActivities g)")
  case None
  then have "handleLogActivity ar g p ty d inp = None"
    by (simp add: handleLogActivity_def)
  moreover from None have "\<not> (\<exists>a \<in> set (allActivities g). atype a = ty)"
    by (auto simp: find_None_iff)
  ultimately show ?thesis by simp
next
  case (Some a)
  then have "handleLogActivity ar g p ty d inp \<noteq> None"
    by (simp add: handleLogActivity_def Let_def split: prod.splits)
  moreover from find_Some_mem[OF Some] have "\<exists>a \<in> set (allActivities g). atype a = ty"
    by blast
  ultimately show ?thesis by simp
qed

lemma handleLogActivity_builtin:
  assumes "ty \<in> set (map atype DEFAULT_ACTIVITIES)"
  shows "\<exists>s' rs. handleLogActivity ar g p ty d inp = Some (s', rs)"
proof -
  from assms have "\<exists>a \<in> set (allActivities g). atype a = ty"
    by (auto simp: allActivities_def)
  then have "handleLogActivity ar g p ty d inp \<noteq> None"
    by (rule handleLogActivity_known[THEN iffD2])
  then show ?thesis by fastforce
qed

lemma find_append_keep: "find P xs \<noteq> None \<Longrightarrow> find P (xs @ ys) = find P xs"
  by (induction xs) auto

section \<open>Where the rewards of one call come from\<close>

lemma randomRewards_types:
  "\<forall>x \<in> set (snd (snd (randomRewards ar r r2 b))). rtype x \<in> {CRITICAL, BONUS, ITEM}"
  by (simp add: randomRewards_def Let_def)

lemma streakLogic_types:
  "\<forall>x \<in> set (snd (snd (streakLogic s today yest))).
     rtype x = BONUS \<and> message x = ''7 Day Streak Bonus!''"
  by (simp add: streakLogic_def Let_def)

lemma dailyQuestLogic_types:
  "\<forall>x \<in> set (snd (snd (dailyQuestLogic dq ty))). rtype x = QUEST_COMPLETE"
  by (simp add: dailyQuestLogic_def Let_def)

lemma unlockLoop_result:
  "\<exists>newIds newRw.
     unlockLoop achs clk t l (un, rw) = (un @ newIds, rw @ newRw) \<and>
     distinct newIds \<and> set newIds \<inter> set un = {} \<and>
     length newRw = length newIds \<and>
     (\<forall>x \<in> set newRw. rtype x = BONUS \<and> xp x = None \<and> item x = None \<and>
                       take 13 (message x) = ''Achievement: '')"
proof (induction achs arbitrary: un rw)
  case Nil
  show ?case by simp
next
  case (Cons a achs)
  show ?case
  proof (cases "ach_id a \<notin> set un \<and> condition a clk t (Some l)")
    case True
    define ev where
      "ev = \<lparr>rtype = BONUS, message = ''Achievement: '' @ title a, xp = None, item = None\<rparr>"
    from Cons.IH[of "un @ [ach_id a]" "rw @ [ev]"] obtain newIds newRw where
      ih: "unlockLoop achs clk t l (un @ [ach_id a], rw @ [ev]) =
             ((un @ [ach_id a]) @ newIds, (rw @ [ev]) @ newRw)"
        "distinct newIds" "set newIds \<inter> set (un @ [ach_id a]) = {}"
        "length newRw = length newIds"
        "\<forall>x \<in> set newRw. rtype x = BONUS \<and> xp x = None \<and> item x = None \<and>
                          take 13 (message x) = ''Achievement: ''"
      by blast
    have "unlockLoop (a # achs) clk t l (un, rw) = (un @ (ach_id a # newIds), rw @ (ev # newRw))"
      using True ih(1) by (simp add: ev_def)
    moreover have "distinct (ach_id a # newIds)" "set (ach_id a # newIds) \<inter> set un = {}"
      using True ih(2,3) by auto
    moreover have "length (ev # newRw) = length (ach_id a # newIds)"
      using ih(4) by simp
    moreover have "\<forall>x \<in> set (ev # newRw). rtype x = BONUS \<and> xp x = None \<and> item x = None \<and>
                          take 13 (message x) = ''Achievement: ''"
      using ih(5) by (simp add: ev_def)
    ultimately show ?thesis by blast
  next
    case False
    then have "unlockLoop (a # achs) clk t l (un, rw) = unlockLoop achs clk t l (un, rw)"
      by auto
    with Cons.IH[of un rw] show ?thesis by simp
  qed
qed

text \<open>The result of a successful call, field by field, and its rewards in the order they
  were pushed: those of the roll, of the streak, of the daily quests, of the level and of
  the achievements.\<close>

lemma handleLogActivity_partsE:
  assumes "handleLogActivity ar g p ty d inp = Some (s', rs)"
  obtains adef newIds newRw where
    "find (\<lambda>a. atype a = ty) (allActivities g) = Some adef"
    "rs = snd (snd (randomRewards ar (in_roll inp) (in_roll2 inp)
                     (calculateXP ar (baseXP adef) (baseDuration adef) d))) @
          snd (snd (streakLogic g (in_todayStr inp) (in_yesterday inp))) @
          snd (snd (dailyQuestLogic (dailyQuests g) ty)) @
          levelUpReward (level g) (level s') @ newRw"
    "logs s' \<noteq> []" "tl (logs s') = logs p"
    "log_dateStr (hd (logs s')) = in_todayStr inp"
    "xpEarned (hd (logs s')) =
       fst (snd (randomRewards ar (in_roll inp) (in_roll2 inp)
                   (calculateXP ar (baseXP adef) (baseDuration adef) d))) +
       fst (snd (streakLogic g (in_todayStr inp) (in_yesterday inp))) +
       fst (snd (dailyQuestLogic (dailyQuests g) ty))"
    "isCritical (hd (logs s')) =
       fst (randomRewards ar (in_roll inp) (in_roll2 inp)
             (calculateXP ar (baseXP adef) (baseDuration adef) d))"
    "totalXP s' = totalXP g + xpEarned (hd (logs s'))"
    "currentXP s' = currentXP p + xpEarned (hd (logs s'))"
    "level s' = getLevelFromXP ar (real_of_int (totalXP s'))"
    "streak s' = fst (streakLogic g (in_todayStr inp) (in_yesterday inp))"
    "dailyQuests s' = fst (dailyQuestLogic (dailyQuests g) ty)"
    "unlockedAchievements s' = unlockedAchievements g @ newIds"
    "distinct newIds" "set newIds \<inter> set (unlockedAchievements g) = {}"
    "length newRw = length newIds"
    "\<forall>x \<in> set newRw. rtype x = BONUS \<and> xp x = None \<and> item x = None \<and>
                      take 13 (message x) = ''Achievement: ''"
proof -
  from assms show thesis
  proof (rule handleLogActivity_SomeE)
  fix adef isCrit xp1 rewards1 newStreak xpS rewardsS dq xpQ rewardsQ newUnlocked
  define t where "t = g\<lparr>logs := mkLog ty d (xp1 + xpS + xpQ) isCrit inp # logs g,
            streak := newStreak, totalXP := totalXP g + (xp1 + xpS + xpQ)\<rparr>"
  define l where "l = mkLog ty d (xp1 + xpS + xpQ) isCrit inp"
  define lv where "lv = levelUpReward (level g)
           (getLevelFromXP ar (real_of_int (totalXP g + (xp1 + xpS + xpQ))))"
  assume f: "find (\<lambda>a. atype a = ty) (allActivities g) = Some adef"
    and r: "randomRewards ar (in_roll inp) (in_roll2 inp)
        (calculateXP ar (baseXP adef) (baseDuration adef) d) = (isCrit, xp1, rewards1)"
    and st: "streakLogic g (in_todayStr inp) (in_yesterday inp) = (newStreak, xpS, rewardsS)"
    and q: "dailyQuestLogic (dailyQuests g) ty = (dq, xpQ, rewardsQ)"
    and u: "unlockLoop ACHIEVEMENTS_LIST (in_clock inp)
        (g\<lparr>logs := mkLog ty d (xp1 + xpS + xpQ) isCrit inp # logs g, streak := newStreak,
            totalXP := totalXP g + (xp1 + xpS + xpQ)\<rparr>)
        (mkLog ty d (xp1 + xpS + xpQ) isCrit inp)
        (unlockedAchievements g,
         rewards1 @ rewardsS @ rewardsQ @
         levelUpReward (level g)
           (getLevelFromXP ar (real_of_int (totalXP g + (xp1 + xpS + xpQ)))))
      = (newUnlocked, rs)"
    and s': "s' = p\<lparr>level := getLevelFromXP ar (real_of_int (totalXP g + (xp1 + xpS + xpQ))),
            currentXP := currentXP p + (xp1 + xpS + xpQ),
            totalXP := totalXP g + (xp1 + xpS + xpQ),
            stats := updateStats (stats g) (stat adef)
                       (calculateXP ar (baseXP adef) (baseDuration adef) d),
            logs := mkLog ty d (xp1 + xpS + xpQ) isCrit inp # logs p,
            streak := newStreak,
            lastLoginDate := in_todayStr inp,
            unlockedAchievements := newUnlocked,
            dailyQuests := dq,
            inventory := addLoot (inventory g) rs\<rparr>"
  have u': "unlockLoop ACHIEVEMENTS_LIST (in_clock inp) t l
      (unlockedAchievements g, rewards1 @ rewardsS @ rewardsQ @ lv) = (newUnlocked, rs)"
    using u unfolding t_def l_def lv_def .
  obtain newIds newRw where
    loop: "unlockLoop ACHIEVEMENTS_LIST (in_clock inp) t l
        (unlockedAchievements g, rewards1 @ rewardsS @ rewardsQ @ lv) =
        (unlockedAchievements g @ newIds, (rewards1 @ rewardsS @ rewardsQ @ lv) @ newRw)"
    and new: "distinct newIds" "set newIds \<inter> set (unlockedAchievements g) = {}"
      "length newRw = length newIds"
      "\<forall>x \<in> set newRw. rtype x = BONUS \<and> xp x = None \<and> item x = None \<and>
                        take 13 (message x) = ''Achievement: ''"
    using unlockLoop_result[of ACHIEVEMENTS_LIST "in_clock inp" t l "unlockedAchievements g"
        "rewards1 @ rewardsS @ rewardsQ @ lv"]
    by blast
  from loop u' have eqs: "newUnlocked = unlockedAchievements g @ newIds"
    "rs = rewards1 @ rewardsS @ rewardsQ @ lv @ newRw"
    by simp_all
  have lvl: "level s' = getLevelFromXP ar (real_of_int (totalXP g + (xp1 + xpS + xpQ)))"
    by (simp add: s')
  have 1: "rs = snd (snd (randomRewards ar (in_roll inp) (in_roll2 inp)
                     (calculateXP ar (baseXP adef) (baseDuration adef) d))) @
          snd (snd (streakLogic g (in_todayStr inp) (in_yesterday inp))) @
          snd (snd (dailyQuestLogic (dailyQuests g) ty)) @
          levelUpReward (level g) (level s') @ newRw"
    unfolding r st q lvl eqs(2) lv_def by simp
  have 2: "logs s' \<noteq> []" "tl (logs s') = logs p"
    "log_dateStr (hd (logs s')) = in_todayStr inp"
    by (simp_all add: s' mkLog_def)
  have 3: "xpEarned (hd (logs s')) =
       fst (snd (randomRewards ar (in_roll inp) (in_roll2 inp)
                   (calculateXP ar (baseXP adef) (baseDuration adef) d))) +
       fst (snd (streakLogic g (in_todayStr inp) (in_yesterday inp))) +
       fst (snd (dailyQuestLogic (dailyQuests g) ty))"
    unfolding r st q by (simp add: s' mkLog_def)
  have 4: "isCritical (hd (logs s')) =
       fst (randomRewards ar (in_roll inp) (in_roll2 inp)
             (calculateXP ar (baseXP adef) (baseDuration adef) d))"
    unfolding r by (simp add: s' mkLog_def)
  have 5: "totalXP s' = totalXP g + xpEarned (hd (logs s'))"
    "currentXP s' = currentXP p + xpEarned (hd (logs s'))"
    by (simp_all add: s' mkLog_def)
  have 6: "level s' = getLevelFromXP ar (real_of_int (totalXP s'))"
    by (simp add: s')
  have 7: "streak s' = fst (streakLogic g (in_todayStr inp) (in_yesterday inp))"
    "dailyQuests s' = fst (dailyQuestLogic (dailyQuests g) ty)"
    unfolding st q by (simp_all add: s')
  have 8: "unlockedAchievements s' = unlockedAchievements g @ newIds"
    by (simp add: s' eqs(1))
  show thesis
    by (rule that[OF f 1 2 3 4 5 6 7 8 new])
  qed
qed

lemma handleLogActivity_builtin_tracker:
  assumes "ty \<in> set (map atype DEFAULT_ACTIVITIES)"
  shows "map_option (dailyQuests \<circ> fst) (handleLogActivity ar g p ty d inp) =
         Some (fst (dailyQuestLogic (dailyQuests g) ty))"
proof -
  from handleLogActivity_builtin[OF assms] obtain s' rs where
    h: "handleLogActivity ar g p ty d inp = Some (s', rs)"
    by blast
  then have "dailyQuests s' = fst (dailyQuestLogic (dailyQuests g) ty)"
    by (rule handleLogActivity_partsE)
  with h show ?thesis by simp
qed

lemma applyLog_builtin_tracker:
  assumes "ev_type e \<in> set (map atype DEFAULT_ACTIVITIES)"
  shows "dailyQuests (fst (applyLog ar s e)) = fst (dailyQuestLogic (dailyQuests s) (ev_type e))"
proof -
  from handleLogActivity_builtin[OF assms] obtain s' rs where
    h: "handleLogActivity ar s s (ev_type e) (ev_duration e) (ev_inputs e) = Some (s', rs)"
    by blast
  then have "dailyQuests s' = fst (dailyQuestLogic (dailyQuests s) (ev_type e))"
    by (rule handleLogActivity_partsE)
  with h show ?thesis by (simp add: applyLog_def)
qed

section \<open>The daily-quest tracker across midnight\<close>

text \<open>The date check at start-up dates the tracker today; logging never changes the
  tracker's date.\<close>

lemma initDateCheck_dates_tracker:
  "dateStr (dailyQuests (initDateCheck today yest s)) = today"
  by (simp add: initDateCheck_def Let_def)

lemma handleLogActivity_keeps_date:
  assumes "handleLogActivity ar g p ty d inp = Some (s', rs)"
  shows "dateStr (dailyQuests s') = dateStr (dailyQuests g)"
proof -
  from assms have "dailyQuests s' = fst (dailyQuestLogic (dailyQuests g) ty)"
    by (rule handleLogActivity_partsE)
  then show ?thesis
    by (simp add: dailyQuestLogic_def Let_def)
qed

lemma overnightState_tracker:
  "dailyQuests (overnightState ar) =
     \<lparr>dateStr = ''2024-01-01'', completed = [''Workout''], bonusClaimed = False\<rparr>"
proof -
  have "dailyQuests (overnightState ar) =
      fst (dailyQuestLogic
            (dailyQuests (initDateCheck ''2024-01-01'' ''2023-12-31'' INITIAL_STATE))
            ''Workout'')"
    unfolding overnightState_def
    by (subst applyLog_builtin_tracker) (simp_all add: DEFAULT_ACTIVITIES_def)
  then show ?thesis
    by (simp add: initDateCheck_def INITIAL_STATE_def dailyQuestLogic_def DAILY_QUESTS_def)
qed

text \<open>
  Claim C2. The claim asks that a log event whose date differs from the tracker's date
  first replaces the tracker by an empty one for the event's date, and that the tracker's
  date is the date of the last transition that touched it. The date check at start-up
  does replace the tracker, \<open>handleLogActivity\<close> never looks at its date. After a workout
  on 1 January and a reading session logged on 2 January in the same run of the
  application, the tracker is still the one of 1 January, with both quests in it; the
  start-up check, run on 2 January, would have emptied it. This holds whatever the
  arithmetic.
\<close>

theorem log_after_midnight_keeps_old_tracker:
  "dailyQuests (overnightState ar) =
     \<lparr>dateStr = ''2024-01-01'', completed = [''Workout''], bonusClaimed = False\<rparr> \<and>
   in_todayStr quietInputs = ''2024-01-02'' \<and>
   map_option (dailyQuests \<circ> fst)
       (handleLogActivity ar (overnightState ar) (overnightState ar) ''Reading'' 30
          quietInputs) =
     Some \<lparr>dateStr = ''2024-01-01'', completed = [''Workout'', ''Reading''],
           bonusClaimed = False\<rparr> \<and>
   dailyQuests (initDateCheck ''2024-01-02'' ''2024-01-01'' (overnightState ar)) =
     \<lparr>dateStr = ''2024-01-02'', completed = [], bonusClaimed = False\<rparr>"
proof -
  have r: "''Reading'' \<in> set (map atype DEFAULT_ACTIVITIES)"
    by (simp add: DEFAULT_ACTIVITIES_def)
  have "map_option (dailyQuests \<circ> fst)
       (handleLogActivity ar (overnightState ar) (overnightState ar) ''Reading'' 30
          quietInputs) =
     Some \<lparr>dateStr = ''2024-01-01'', completed = [''Workout'', ''Reading''],
           bonusClaimed = False\<rparr>"
    unfolding handleLogActivity_builtin_tracker[OF r] overnightState_tracker
    by (simp add: dailyQuestLogic_def DAILY_QUESTS_def)
  moreover have "dailyQuests (initDateCheck ''2024-01-02'' ''2024-01-01'' (overnightState ar)) =
     \<lparr>dateStr = ''2024-01-02'', completed = [], bonusClaimed = False\<rparr>"
    by (simp add: initDateCheck_def Let_def overnightState_tracker)
  ultimately show ?thesis
    by (simp add: overnightState_tracker quietInputs_def)
qed

section \<open>Custom activities\<close>

text \<open>
  Claim C3, as the specification states it: adding a custom activity whose identifier is
  already taken fails and leaves the custom activities unchanged. The handler has no
  failure: a custom activity named \<open>Workout\<close> is stored although a built-in activity has
  that name.
\<close>

theorem duplicate_workout_is_accepted:
  "ca_name workoutAgain = ''Workout'' \<and>
   ''Workout'' \<in> set (map atype (allActivities INITIAL_STATE)) \<and>
   customActivities INITIAL_STATE = [] \<and>
   customActivities (handleAddCustomActivity INITIAL_STATE workoutAgain) = [workoutAgain]"
  by (simp add: workoutAgain_def handleAddCustomActivity_def INITIAL_STATE_def allActivities_def
      DEFAULT_ACTIVITIES_def)

text \<open>
  Claim C3, amended. \<open>handleAddCustomActivity\<close> appends the definition to the custom
  activities whatever its name, and every name that was known before still resolves to the
  definition it resolved to before: an entry with a name already taken is stored but never
  found.
\<close>

theorem add_custom_appends_unchecked:
  "customActivities (handleAddCustomActivity s a) = customActivities s @ [a] \<and>
   (\<forall>ty. ty \<in> set (map atype (allActivities s)) \<longrightarrow>
      find (\<lambda>d. atype d = ty) (allActivities (handleAddCustomActivity s a)) =
      find (\<lambda>d. atype d = ty) (allActivities s))"
proof -
  have "find (\<lambda>d. atype d = ty) (allActivities (handleAddCustomActivity s a)) =
        find (\<lambda>d. atype d = ty) (allActivities s)"
    if "ty \<in> set (map atype (allActivities s))" for ty
  proof -
    from that have "find (\<lambda>d. atype d = ty) (allActivities s) \<noteq> None"
      by (auto simp: find_None_iff)
    then show ?thesis
      using find_append_keep[of "\<lambda>d. atype d = ty" "allActivities s"]
      by (simp add: allActivities_def handleAddCustomActivity_def)
  qed
  then show ?thesis by (simp add: handleAddCustomActivity_def)
qed

theorem add_custom_appends_unchecked_witness:
  "customActivities (handleAddCustomActivity INITIAL_STATE workoutAgain) = [workoutAgain] \<and>
   ''Workout'' \<in> set (map atype (allActivities INITIAL_STATE)) \<and>
   find (\<lambda>d. atype d = ''Workout'')
       (allActivities (handleAddCustomActivity INITIAL_STATE workoutAgain)) =
     Some \<lparr>atype = ''Workout'', iconKey = ''Dumbbell'', stat = Strength,
           color = ''text-red-500'', baseXP = 40, baseDuration = 30\<rparr>"
proof -
  have m: "''Workout'' \<in> set (map atype (allActivities INITIAL_STATE))"
    by (simp add: allActivities_def DEFAULT_ACTIVITIES_def INITIAL_STATE_def)
  have f: "find (\<lambda>d. atype d = ''Workout'') (allActivities INITIAL_STATE) =
     Some \<lparr>atype = ''Workout'', iconKey = ''Dumbbell'', stat = Strength,
           color = ''text-red-500'', baseXP = 40, baseDuration = 30\<rparr>"
    by (simp add: allActivities_def DEFAULT_ACTIVITIES_def INITIAL_STATE_def)
  from add_custom_appends_unchecked[of INITIAL_STATE workoutAgain] m f
  show ?thesis by (simp add: INITIAL_STATE_def)
qed

section \<open>The streak\<close>

text \<open>
  Claim C4. One logged activity leaves the streak as it is when the last log was today,
  adds one when the last log was yesterday, and sets it to one in every other case (a gap
  of two days or more, or no earlier log). The streak and the date of the last log are
  those of the profile the handler computes from.
\<close>

theorem streak_transition:
  assumes "handleLogActivity ar g p ty d inp = Some (s', rs)"
  shows "streak s' =
    (if lastLoginDate g = in_todayStr inp then streak g
     else if lastLoginDate g = in_yesterday inp then streak g + 1
     else 1)"
proof -
  from assms have "streak s' = fst (streakLogic g (in_todayStr inp) (in_yesterday inp))"
    by (rule handleLogActivity_partsE)
  then show ?thesis
    by (auto simp: streakLogic_def Let_def)
qed

theorem streak_transition_witness:
  "\<exists>s' rs. handleLogActivity exactArith gapState gapState ''Workout'' 30 quietInputs =
       Some (s', rs) \<and>
     lastLoginDate gapState \<noteq> in_todayStr quietInputs \<and>
     lastLoginDate gapState \<noteq> in_yesterday quietInputs \<and>
     streak gapState = 5 \<and> streak s' = 1"
proof -
  have "''Workout'' \<in> set (map atype DEFAULT_ACTIVITIES)"
    by (simp add: DEFAULT_ACTIVITIES_def)
  from handleLogActivity_builtin[OF this] obtain s' rs where
    h: "handleLogActivity exactArith gapState gapState ''Workout'' 30 quietInputs =
          Some (s', rs)"
    by blast
  from streak_transition[OF h] have "streak s' = 1"
    by (simp add: gapState_def quietInputs_def INITIAL_STATE_def)
  with h show ?thesis
    by (simp add: gapState_def quietInputs_def INITIAL_STATE_def)
qed

section \<open>The reward roll\<close>











section \<open>Durations\<close>

text \<open>
  Claim C7, as the specification states it: a non-positive duration is rejected and the
  profile is not changed. \<open>handleLogActivity\<close> does not look at the sign of the duration: a
  workout of zero minutes is logged, earns no XP and still adds five points of discipline.
\<close>

theorem zero_duration_is_logged:
  "map_option (\<lambda>(s, rs). (length (logs s), map durationMinutes (logs s), totalXP s,
                            stats s Discipline, lastLoginDate s))
     (handleLogActivity exactArith INITIAL_STATE INITIAL_STATE ''Workout'' 0 quietInputs) =
   Some (1, [0], 0, 5, ''2024-01-02'')"
  by (simp add: eval_defs)

text \<open>
  Claim C7, amended. The durations that \<open>LogActivityModal\<close> passes to the handler are all
  positive: the quick buttons carry positive constants, and the button of the
  custom-duration field calls the handler only when the field parses to a number greater
  than zero and an activity is selected, with exactly that number. A value that is zero,
  negative or not a number is dropped without any change of the profile, without a reward
  and without an error.
\<close>

theorem only_positive_durations_are_logged:
  "(\<forall>d \<in> set QUICK_DURATIONS. 0 < d) \<and>
   (\<forall>val. val \<le> 0 \<longrightarrow> customDurationClick ar g p sel (Some val) inp = None) \<and>
   customDurationClick ar g p sel None inp = None \<and>
   (\<forall>val ty. 0 < val \<and> ty \<noteq> [] \<longrightarrow>
      customDurationClick ar g p (Some ty) (Some val) inp =
      handleLogActivity ar g p ty val inp)"
  by (simp add: QUICK_DURATIONS_def customDurationClick_def handleQuickLog_def)

theorem only_positive_durations_are_logged_witness:
  "customDurationClick exactArith INITIAL_STATE INITIAL_STATE (Some ''Workout'') (Some 0)
     quietInputs = None \<and>
   customDurationClick exactArith INITIAL_STATE INITIAL_STATE (Some ''Workout'') (Some (- 30))
     quietInputs = None \<and>
   customDurationClick exactArith INITIAL_STATE INITIAL_STATE (Some ''Workout'') None
     quietInputs = None \<and>
   customDurationClick exactArith INITIAL_STATE INITIAL_STATE (Some ''Workout'') (Some 30)
     quietInputs =
     handleLogActivity exactArith INITIAL_STATE INITIAL_STATE ''Workout'' 30 quietInputs \<and>
   handleLogActivity exactArith INITIAL_STATE INITIAL_STATE ''Workout'' 30 quietInputs \<noteq> None \<and>
   (15 :: int) \<in> set QUICK_DURATIONS \<and> (0 :: int) < 15"
proof -
  have "''Workout'' \<in> set (map atype DEFAULT_ACTIVITIES)"
    by (simp add: DEFAULT_ACTIVITIES_def)
  from handleLogActivity_builtin[OF this, of exactArith INITIAL_STATE INITIAL_STATE 30 quietInputs]
  have "handleLogActivity exactArith INITIAL_STATE INITIAL_STATE ''Workout'' 30 quietInputs \<noteq> None"
    by auto
  moreover have "(15 :: int) \<in> set QUICK_DURATIONS"
    by (simp add: QUICK_DURATIONS_def)
  ultimately show ?thesis
    using only_positive_durations_are_logged[of exactArith INITIAL_STATE INITIAL_STATE
        "Some ''Workout''" quietInputs]
    by simp
qed

section \<open>Current and total XP\<close>

text \<open>The handler adds the XP earned to the current XP of the current profile and to the
  total XP of the profile it computes from. Called on the current profile it keeps the two
  equal.\<close>

lemma handleLogActivity_xp_gap:
  assumes "handleLogActivity ar g p ty d inp = Some (s', rs)"
  shows "currentXP s' - totalXP s' = currentXP p - totalXP g"
proof -
  from assms have "totalXP s' = totalXP g + xpEarned (hd (logs s'))"
    by (rule handleLogActivity_partsE)
  moreover from assms have "currentXP s' = currentXP p + xpEarned (hd (logs s'))"
    by (rule handleLogActivity_partsE)
  ultimately show ?thesis by simp
qed

lemma latest_handler_keeps_xp_equal:
  assumes "handleLogActivity ar s s ty d inp = Some (s', rs)" and "currentXP s = totalXP s"
  shows "currentXP s' = totalXP s'"
  using handleLogActivity_xp_gap[OF assms(1)] assms(2) by simp

lemma afterWorkout_reachable: "reachable exactArith afterWorkout"
proof -
  have "''Workout'' \<in> set (map atype DEFAULT_ACTIVITIES)"
    by (simp add: DEFAULT_ACTIVITIES_def)
  from handleLogActivity_builtin[OF this] obtain s' rs where
    h: "handleLogActivity exactArith INITIAL_STATE INITIAL_STATE ''Workout'' 30 quietInputs =
          Some (s', rs)"
    by blast
  then have "afterWorkout = s'"
    by (simp add: afterWorkout_def applyLog_def quietLog_def)
  with reach_log[OF reach_init reach_init h] show ?thesis by simp
qed

lemma afterReading_reachable: "reachable exactArith afterReading"
proof -
  have "''Reading'' \<in> set (map atype DEFAULT_ACTIVITIES)"
    by (simp add: DEFAULT_ACTIVITIES_def)
  from handleLogActivity_builtin[OF this] obtain s' rs where
    h: "handleLogActivity exactArith afterWorkout afterWorkout ''Reading'' 30 quietInputs =
          Some (s', rs)"
    by blast
  then have "afterReading = s'"
    by (simp add: afterReading_def applyLog_def quietLog_def)
  with reach_log[OF afterWorkout_reachable afterWorkout_reachable h] show ?thesis by simp
qed

text \<open>
  Claim C10. The claim asks that the current XP and the total XP are the same number in
  every profile the application reaches. The state updater takes the current XP from the
  current profile and the total XP from the profile of the render the handler belongs to.
  When a handler is called a second time before the component has rendered again, as the
  log form allows while it slides out, the two profiles differ. After one workout both
  numbers are 40. A reading session of 30 minutes logged through the handler of that
  render earns 25 XP and no reward, so that nothing covers the form, and gives 65 and 65;
  the same handler called once more gives a current XP of 90 and a total XP of 65, with
  three logs of 25, 25 and 40 XP. All the arithmetic of this run is exact in doubles.
\<close>

theorem stale_handler_splits_xp:
  "currentXP afterWorkout = 40 \<and> totalXP afterWorkout = 40 \<and>
   handleLogActivity exactArith afterWorkout afterWorkout ''Reading'' 30 quietInputs =
     Some (afterReading, []) \<and>
   currentXP afterReading = 65 \<and> totalXP afterReading = 65 \<and>
   map_option (\<lambda>(s, rs). (currentXP s, totalXP s, map xpEarned (logs s), rs))
     (handleLogActivity exactArith afterWorkout afterReading ''Reading'' 30 quietInputs) =
   Some (90, 65, [25, 25, 40], [])"
  by (simp add: afterReading_def afterWorkout_def eval_defs)

section \<open>Levelling up\<close>

lemma levelUp_filter:
  assumes "handleLogActivity ar g p ty d inp = Some (s', rs)"
  shows "filter (\<lambda>x. rtype x = LEVEL_UP) rs = levelUpReward (level g) (level s')"
proof -
  from assms obtain adef where
    f: "find (\<lambda>a. atype a = ty) (allActivities g) = Some adef"
    by (rule handleLogActivity_partsE)
  define rr where "rr = snd (snd (randomRewards ar (in_roll inp) (in_roll2 inp)
      (calculateXP ar (baseXP adef) (baseDuration adef) d)))"
  define sl where "sl = snd (snd (streakLogic g (in_todayStr inp) (in_yesterday inp)))"
  define ql where "ql = snd (snd (dailyQuestLogic (dailyQuests g) ty))"
  define lv where "lv = levelUpReward (level g) (level s')"
  from assms obtain newRw where
    rs: "rs = rr @ sl @ ql @ lv @ newRw"
    and new: "\<forall>x \<in> set newRw. rtype x = BONUS \<and> xp x = None \<and> item x = None \<and>
                      take 13 (message x) = ''Achievement: ''"
    unfolding rr_def sl_def ql_def lv_def
    by (rule handleLogActivity_partsE) (simp add: f)
  have "filter (\<lambda>x. rtype x = LEVEL_UP) rr = []"
    unfolding rr_def using randomRewards_types by (fastforce simp: filter_empty_conv)
  moreover have "filter (\<lambda>x. rtype x = LEVEL_UP) sl = []"
    unfolding sl_def using streakLogic_types[of g "in_todayStr inp" "in_yesterday inp"]
    by (auto simp: filter_empty_conv)
  moreover have "filter (\<lambda>x. rtype x = LEVEL_UP) ql = []"
    unfolding ql_def using dailyQuestLogic_types[of "dailyQuests g" ty]
    by (auto simp: filter_empty_conv)
  moreover have "filter (\<lambda>x. rtype x = LEVEL_UP) newRw = []"
    using new by (auto simp: filter_empty_conv)
  moreover have "filter (\<lambda>x. rtype x = LEVEL_UP) lv = lv"
    by (simp add: lv_def levelUpReward_def)
  ultimately show ?thesis by (simp add: rs lv_def)
qed

text \<open>
  Claim C8. After a logged activity whose new total XP is not negative, the total XP is
  the total of the profile the handler computes from plus the XP earned, the level is
  \<open>getLevelFromXP\<close> of the new total, and
  the rewards contain a level-up event, one and without an XP amount, exactly when the new
  level is above the level of that profile. In particular a profile at 99 XP and level 1
  that earns exactly one XP ends at 100 XP and at level \<open>getLevelFromXP 100\<close>; where 100
  divided by 100 is 1 and the power of 1 is 1, as in double arithmetic, that level is 2
  and there is exactly one level-up event. Nothing else is assumed of the arithmetic.
\<close>

theorem level_follows_total_xp:
  assumes "handleLogActivity ar g p ty d inp = Some (s', rs)" and "0 \<le> totalXP s'"
  shows
   "totalXP s' = totalXP g + xpEarned (hd (logs s')) \<and>
    level s' = getLevelFromXP ar (real_of_int (totalXP s')) \<and>
    filter (\<lambda>x. rtype x = LEVEL_UP) rs =
      (if level s' > level g
       then [\<lparr>rtype = LEVEL_UP, message = ''Level '' @ toString (level s') @ '' Reached!'',
              xp = None, item = None\<rparr>]
       else []) \<and>
    (totalXP g = 99 \<and> level g = 1 \<and> xpEarned (hd (logs s')) = 1 \<longrightarrow>
       totalXP s' = 100 \<and> level s' = getLevelFromXP ar 100 \<and>
       (fdiv ar 100 LEVEL_BASE = 1 \<and> fpow ar 1 (fdiv ar 1 LEVEL_MULTIPLIER) = 1 \<longrightarrow>
          level s' = 2 \<and>
          length (filter (\<lambda>x. rtype x = LEVEL_UP) rs) = 1 \<and>
          map xp (filter (\<lambda>x. rtype x = LEVEL_UP) rs) = [None]))"
proof -
  from assms(1) have t: "totalXP s' = totalXP g + xpEarned (hd (logs s'))"
    by (rule handleLogActivity_partsE)
  from assms(1) have l: "level s' = getLevelFromXP ar (real_of_int (totalXP s'))"
    by (rule handleLogActivity_partsE)
  have f: "filter (\<lambda>x. rtype x = LEVEL_UP) rs =
      (if level s' > level g
       then [\<lparr>rtype = LEVEL_UP, message = ''Level '' @ toString (level s') @ '' Reached!'',
              xp = None, item = None\<rparr>]
       else [])"
    using levelUp_filter[OF assms(1)] by (simp add: levelUpReward_def)
  have scen: "totalXP s' = 100 \<and> level s' = getLevelFromXP ar 100 \<and>
       (fdiv ar 100 LEVEL_BASE = 1 \<and> fpow ar 1 (fdiv ar 1 LEVEL_MULTIPLIER) = 1 \<longrightarrow>
          level s' = 2 \<and>
          length (filter (\<lambda>x. rtype x = LEVEL_UP) rs) = 1 \<and>
          map xp (filter (\<lambda>x. rtype x = LEVEL_UP) rs) = [None])"
    if a: "totalXP g = 99" "level g = 1" "xpEarned (hd (logs s')) = 1"
  proof -
    from t a have t100: "totalXP s' = 100" by simp
    with l have l100: "level s' = getLevelFromXP ar 100" by simp
    have "level s' = 2 \<and>
          length (filter (\<lambda>x. rtype x = LEVEL_UP) rs) = 1 \<and>
          map xp (filter (\<lambda>x. rtype x = LEVEL_UP) rs) = [None]"
      if "fdiv ar 100 LEVEL_BASE = 1" "fpow ar 1 (fdiv ar 1 LEVEL_MULTIPLIER) = 1"
    proof -
      from that have "getLevelFromXP ar 100 = 2"
        by (simp add: getLevelFromXP_def)
      with l100 have "level s' = 2" by simp
      with f a show ?thesis by simp
    qed
    with t100 l100 show ?thesis by blast
  qed
  from t l f scen show ?thesis by blast
qed

theorem level_follows_total_xp_witness:
  "fdiv exactArith 100 LEVEL_BASE = 1 \<and>
   fpow exactArith 1 (fdiv exactArith 1 LEVEL_MULTIPLIER) = 1 \<and>
   (\<exists>s' rs. handleLogActivity exactArith almostLevel2 almostLevel2 ''Workout'' 1 quietInputs =
       Some (s', rs) \<and>
     totalXP almostLevel2 = 99 \<and> level almostLevel2 = 1 \<and> xpEarned (hd (logs s')) = 1 \<and>
     totalXP s' = 100 \<and> level s' = 2 \<and> map rtype rs = [LEVEL_UP] \<and> map xp rs = [None])"
proof -
  have ar: "fdiv exactArith 100 LEVEL_BASE = 1"
    "fpow exactArith 1 (fdiv exactArith 1 LEVEL_MULTIPLIER) = 1"
    by (simp_all add: LEVEL_BASE_def)
  have "''Workout'' \<in> set (map atype DEFAULT_ACTIVITIES)"
    by (simp add: DEFAULT_ACTIVITIES_def)
  from handleLogActivity_builtin[OF this] obtain s' rs where
    h: "handleLogActivity exactArith almostLevel2 almostLevel2 ''Workout'' 1 quietInputs =
          Some (s', rs)"
    by blast
  have "map_option (\<lambda>(s, rs). (xpEarned (hd (logs s)), totalXP s, map rtype rs, map xp rs))
          (handleLogActivity exactArith almostLevel2 almostLevel2 ''Workout'' 1 quietInputs) =
        Some (1, 100, [LEVEL_UP], [None])"
    by (simp add: almostLevel2_def eval_defs)
  with h have e: "xpEarned (hd (logs s')) = 1" "totalXP s' = 100"
    "map rtype rs = [LEVEL_UP]" "map xp rs = [None]"
    by simp_all
  have b: "totalXP almostLevel2 = 99" "level almostLevel2 = 1"
    by (simp_all add: almostLevel2_def INITIAL_STATE_def)
  from level_follows_total_xp[OF h] e b ar have l2: "level s' = 2" by simp
  have "handleLogActivity exactArith almostLevel2 almostLevel2 ''Workout'' 1 quietInputs =
       Some (s', rs) \<and>
     totalXP almostLevel2 = 99 \<and> level almostLevel2 = 1 \<and> xpEarned (hd (logs s')) = 1 \<and>
     totalXP s' = 100 \<and> level s' = 2 \<and> map rtype rs = [LEVEL_UP] \<and> map xp rs = [None]"
    by (intro conjI h b e l2)
  then have "\<exists>s' rs. handleLogActivity exactArith almostLevel2 almostLevel2 ''Workout'' 1
       quietInputs = Some (s', rs) \<and>
     totalXP almostLevel2 = 99 \<and> level almostLevel2 = 1 \<and> xpEarned (hd (logs s')) = 1 \<and>
     totalXP s' = 100 \<and> level s' = 2 \<and> map rtype rs = [LEVEL_UP] \<and> map xp rs = [None]"
    by (intro exI)
  with ar show ?thesis by (intro conjI)
qed

section \<open>Achievements\<close>

lemma initDateCheck_unlocked [simp]:
  "unlockedAchievements (initDateCheck today yest s) = unlockedAchievements s"
  by (simp add: initDateCheck_def Let_def)

lemma sameUnlessUnlocked_mono:
  "sameUnlessUnlocked un a b \<Longrightarrow> set un \<subseteq> set un' \<Longrightarrow> sameUnlessUnlocked un' a b"
  by (auto simp: sameUnlessUnlocked_def)

text \<open>The loop never consults the condition of an achievement that is already unlocked:
  replacing those conditions by anything else leaves its result as it is.\<close>

lemma unlockLoop_skips_unlocked:
  "list_all2 (sameUnlessUnlocked un) achs achs' \<Longrightarrow>
   unlockLoop achs clk t l (un, rw) = unlockLoop achs' clk t l (un, rw)"
proof (induction achs arbitrary: achs' un rw)
  case Nil
  then show ?case by simp
next
  case (Cons a achs)
  from Cons.prems obtain b rest where
    achs': "achs' = b # rest" and ab: "sameUnlessUnlocked un a b"
    and rest: "list_all2 (sameUnlessUnlocked un) achs rest"
    by (auto simp: list_all2_Cons1)
  from ab have same: "ach_id a = ach_id b" "title a = title b"
    by (simp_all add: sameUnlessUnlocked_def)
  show ?case
  proof (cases "ach_id a \<in> set un")
    case True
    with same Cons.IH[OF rest] show ?thesis
      by (simp add: achs')
  next
    case False
    with ab have cond: "condition a = condition b"
      by (simp add: sameUnlessUnlocked_def)
    have "list_all2 (sameUnlessUnlocked (un @ [ach_id a])) achs rest"
      using rest by (rule list_all2_mono) (auto intro: sameUnlessUnlocked_mono)
    from Cons.IH[OF this] Cons.IH[OF rest] same cond show ?thesis
      by (simp add: achs')
  qed
qed

text \<open>The list of unlocked achievements after a call is the list of the profile the
  handler computes from, followed by new ones.\<close>

lemma handleLogActivity_unlocked:
  assumes "handleLogActivity ar g p ty d inp = Some (s', rs)"
  shows "\<exists>new. unlockedAchievements s' = unlockedAchievements g @ new \<and>
               distinct new \<and> set new \<inter> set (unlockedAchievements g) = {}"
proof -
  from assms obtain newIds where
    "unlockedAchievements s' = unlockedAchievements g @ newIds"
    "distinct newIds" "set newIds \<inter> set (unlockedAchievements g) = {}"
    by (rule handleLogActivity_partsE)
  then show ?thesis by blast
qed

lemma reachable_unlocked_distinct:
  "reachable ar s \<Longrightarrow> distinct (unlockedAchievements s)"
proof (induction rule: reachable.induct)
  case reach_init
  show ?case by (simp add: INITIAL_STATE_def)
next
  case (reach_date s today yest)
  then show ?case by simp
next
  case (reach_add s a)
  then show ?case by (simp add: handleAddCustomActivity_def)
next
  case (reach_log g p ty d inp s' rs)
  from handleLogActivity_unlocked[OF reach_log.hyps(3)] reach_log.IH(1)
  show ?case by auto
qed

text \<open>
  Claim C9. In every profile the application reaches, no achievement is listed twice. A
  logged activity keeps the list of unlocked achievements of the profile it computes from
  and only appends achievements that were not in it, so an achievement whose condition
  still holds is not recorded again; and the conditions of the achievements already
  unlocked play no part in the result of the loop.
\<close>

theorem achievements_recorded_once:
  assumes "reachable ar g"
  shows
   "distinct (unlockedAchievements g) \<and>
    (\<forall>p ty d inp s' rs. handleLogActivity ar g p ty d inp = Some (s', rs) \<longrightarrow>
       prefix (unlockedAchievements g) (unlockedAchievements s') \<and>
       distinct (unlockedAchievements s')) \<and>
    (\<forall>achs clk t l rw.
       list_all2 (sameUnlessUnlocked (unlockedAchievements g)) achs ACHIEVEMENTS_LIST \<longrightarrow>
       unlockLoop achs clk t l (unlockedAchievements g, rw) =
       unlockLoop ACHIEVEMENTS_LIST clk t l (unlockedAchievements g, rw))"
proof -
  have d: "distinct (unlockedAchievements g)"
    using assms by (rule reachable_unlocked_distinct)
  have step: "prefix (unlockedAchievements g) (unlockedAchievements s') \<and>
       distinct (unlockedAchievements s')"
    if "handleLogActivity ar g p ty d inp = Some (s', rs)" for p ty d inp s' rs
    using handleLogActivity_unlocked[OF that] d by (auto simp: prefix_def)
  from d step unlockLoop_skips_unlocked show ?thesis by blast
qed

theorem achievements_recorded_once_witness:
  "\<exists>s2 r2.
     reachable exactArith afterWorkout \<and>
     handleLogActivity exactArith afterWorkout afterWorkout ''Workout'' 30 quietInputs =
       Some (s2, r2) \<and>
     unlockedAchievements afterWorkout = [''first_step''] \<and>
     condition (hd ACHIEVEMENTS_LIST) exampleClock s2 (Some (hd (logs s2))) \<and>
     unlockedAchievements s2 = [''first_step''] \<and>
     distinct (unlockedAchievements s2) \<and>
     prefix (unlockedAchievements afterWorkout) (unlockedAchievements s2)"
proof -
  have w: "''Workout'' \<in> set (map atype DEFAULT_ACTIVITIES)"
    by (simp add: DEFAULT_ACTIVITIES_def)
  from handleLogActivity_builtin[OF w] obtain s2 r2 where
    h2: "handleLogActivity exactArith afterWorkout afterWorkout ''Workout'' 30 quietInputs =
           Some (s2, r2)"
    by blast
  have u1: "unlockedAchievements afterWorkout = [''first_step'']"
    by (simp add: afterWorkout_def eval_defs)
  have "map_option (\<lambda>(s, rs). (unlockedAchievements s, length (logs s)))
          (handleLogActivity exactArith afterWorkout afterWorkout ''Workout'' 30 quietInputs) =
        Some ([''first_step''], 2)"
    by (simp add: afterWorkout_def eval_defs)
  with h2 have u2: "unlockedAchievements s2 = [''first_step'']" and l2: "length (logs s2) = 2"
    by simp_all
  from l2 have c: "condition (hd ACHIEVEMENTS_LIST) exampleClock s2 (Some (hd (logs s2)))"
    by (simp add: ACHIEVEMENTS_LIST_def)
  from achievements_recorded_once[OF afterWorkout_reachable] h2
  have pd: "prefix (unlockedAchievements afterWorkout) (unlockedAchievements s2) \<and>
        distinct (unlockedAchievements s2)"
    by blast
  have "reachable exactArith afterWorkout \<and>
     handleLogActivity exactArith afterWorkout afterWorkout ''Workout'' 30 quietInputs =
       Some (s2, r2) \<and>
     unlockedAchievements afterWorkout = [''first_step''] \<and>
     condition (hd ACHIEVEMENTS_LIST) exampleClock s2 (Some (hd (logs s2))) \<and>
     unlockedAchievements s2 = [''first_step''] \<and>
     distinct (unlockedAchievements s2) \<and>
     prefix (unlockedAchievements afterWorkout) (unlockedAchievements s2)"
    using pd by (intro conjI afterWorkout_reachable h2 u1 c u2) simp_all
  then show ?thesis by (intro exI)
qed

section \<open>The daily-quest bonus\<close>

lemma dailyQuestLogic_cases:
  "dailyQuestLogic dq ty =
    (if ty \<in> set DAILY_QUESTS \<and> ty \<notin> set (completed dq)
     then (if length (completed dq) = 3 \<and> \<not> bonusClaimed dq
           then (dq\<lparr>completed := completed dq @ [ty], bonusClaimed := True\<rparr>, 80, [questBonus])
           else (dq\<lparr>completed := completed dq @ [ty]\<rparr>, 0, []))
     else (dq, 0, []))"
  by (auto simp: dailyQuestLogic_def Let_def questBonus_def)

lemma questRewards_append [simp]:
  "questRewards (xs @ ys) = questRewards xs @ questRewards ys"
  by (simp add: questRewards_def)

text \<open>The quest rewards of a call are those of the daily-quest block, which reads the
  tracker of the profile the handler computes from.\<close>

lemma questRewards_handleLogActivity:
  assumes "handleLogActivity ar g p ty d inp = Some (s', rs)"
  shows "questRewards rs = snd (snd (dailyQuestLogic (dailyQuests g) ty))"
    and "dailyQuests s' = fst (dailyQuestLogic (dailyQuests g) ty)"
proof -
  from assms obtain adef where
    f: "find (\<lambda>a. atype a = ty) (allActivities g) = Some adef"
    by (rule handleLogActivity_partsE)
  define rr where "rr = snd (snd (randomRewards ar (in_roll inp) (in_roll2 inp)
      (calculateXP ar (baseXP adef) (baseDuration adef) d)))"
  define sl where "sl = snd (snd (streakLogic g (in_todayStr inp) (in_yesterday inp)))"
  define ql where "ql = snd (snd (dailyQuestLogic (dailyQuests g) ty))"
  define lv where "lv = levelUpReward (level g) (level s')"
  from assms obtain newRw where
    rs: "rs = rr @ sl @ ql @ lv @ newRw"
    and new: "\<forall>x \<in> set newRw. rtype x = BONUS \<and> xp x = None \<and> item x = None \<and>
                      take 13 (message x) = ''Achievement: ''"
    unfolding rr_def sl_def ql_def lv_def
    by (rule handleLogActivity_partsE) (simp add: f)
  have "questRewards rr = []"
    unfolding rr_def questRewards_def using randomRewards_types
    by (fastforce simp: filter_empty_conv)
  moreover have "questRewards sl = []"
    unfolding sl_def questRewards_def
    using streakLogic_types[of g "in_todayStr inp" "in_yesterday inp"]
    by (auto simp: filter_empty_conv)
  moreover have "questRewards ql = ql"
    unfolding ql_def questRewards_def
    using dailyQuestLogic_types[of "dailyQuests g" ty] by simp
  moreover have "questRewards newRw = []"
    using new by (auto simp: questRewards_def filter_empty_conv)
  moreover have "questRewards lv = []"
    by (simp add: lv_def levelUpReward_def questRewards_def)
  ultimately show "questRewards rs = snd (snd (dailyQuestLogic (dailyQuests g) ty))"
    by (simp add: rs ql_def)
  from assms show "dailyQuests s' = fst (dailyQuestLogic (dailyQuests g) ty)"
    by (rule handleLogActivity_partsE)
qed

lemma quests_done_iff_four:
  assumes "distinct xs" and "set xs \<subseteq> set DAILY_QUESTS"
  shows "set xs = set DAILY_QUESTS \<longleftrightarrow> length xs = 4"
proof -
  have c: "card (set DAILY_QUESTS) = 4"
    by (simp add: DAILY_QUESTS_def)
  have l: "card (set xs) = length xs"
    using assms(1) by (rule distinct_card)
  show ?thesis
  proof
    assume "set xs = set DAILY_QUESTS"
    with c l show "length xs = 4" by simp
  next
    assume "length xs = 4"
    with c l have "card (set xs) = card (set DAILY_QUESTS)" by simp
    with assms(2) show "set xs = set DAILY_QUESTS"
      by (intro card_subset_eq) simp_all
  qed
qed

text \<open>One step on the tracker alone.\<close>

lemma dailyQuestLogic_step:
  fixes dq :: DailyQuestState and ty :: ActivityType
  assumes "distinct (completed dq)" and "set (completed dq) \<subseteq> set DAILY_QUESTS"
  defines "dq' \<equiv> fst (dailyQuestLogic dq ty)"
  shows "distinct (completed dq') \<and> set (completed dq') \<subseteq> set DAILY_QUESTS"
    and "snd (snd (dailyQuestLogic dq ty)) =
          (if \<not> bonusClaimed dq \<and> set (completed dq) \<noteq> set DAILY_QUESTS \<and>
              set (completed dq') = set DAILY_QUESTS
           then [questBonus] else [])"
    and "bonusClaimed dq' \<longleftrightarrow> bonusClaimed dq \<or> snd (snd (dailyQuestLogic dq ty)) \<noteq> []"
    and "set (completed dq) = set DAILY_QUESTS \<Longrightarrow> set (completed dq') = set DAILY_QUESTS"
proof -
  show ok': "distinct (completed dq') \<and> set (completed dq') \<subseteq> set DAILY_QUESTS"
    using assms(1,2) by (simp add: dq'_def dailyQuestLogic_cases)
  show "bonusClaimed dq' \<longleftrightarrow> bonusClaimed dq \<or> snd (snd (dailyQuestLogic dq ty)) \<noteq> []"
    by (simp add: dq'_def dailyQuestLogic_cases)
  show "set (completed dq) = set DAILY_QUESTS \<Longrightarrow> set (completed dq') = set DAILY_QUESTS"
    by (auto simp: dq'_def dailyQuestLogic_cases)
  show "snd (snd (dailyQuestLogic dq ty)) =
          (if \<not> bonusClaimed dq \<and> set (completed dq) \<noteq> set DAILY_QUESTS \<and>
              set (completed dq') = set DAILY_QUESTS
           then [questBonus] else [])"
  proof (cases "ty \<in> set DAILY_QUESTS \<and> ty \<notin> set (completed dq)")
    case False
    then have "dailyQuestLogic dq ty = (dq, 0, [])"
      unfolding dailyQuestLogic_cases by (simp only: if_False)
    then show ?thesis by (simp add: dq'_def)
  next
    case True
    then have notdone: "set (completed dq) \<noteq> set DAILY_QUESTS" by auto
    from True have c': "completed dq' = completed dq @ [ty]"
      by (simp add: dq'_def dailyQuestLogic_cases)
    from ok' have "set (completed dq') = set DAILY_QUESTS \<longleftrightarrow> length (completed dq') = 4"
      by (intro quests_done_iff_four) simp_all
    then have done': "set (completed dq') = set DAILY_QUESTS \<longleftrightarrow> length (completed dq) = 3"
      by (simp add: c')
    show ?thesis
      unfolding done' using True notdone by (simp add: dailyQuestLogic_cases)
  qed
qed

lemma applyLog_tracker:
  "(fst (applyLog ar s e) = s \<and> snd (applyLog ar s e) = []) \<or>
   (dailyQuests (fst (applyLog ar s e)) = fst (dailyQuestLogic (dailyQuests s) (ev_type e)) \<and>
    questRewards (snd (applyLog ar s e)) =
      snd (snd (dailyQuestLogic (dailyQuests s) (ev_type e))))"
proof (cases "handleLogActivity ar s s (ev_type e) (ev_duration e) (ev_inputs e)")
  case None
  then show ?thesis by (simp add: applyLog_def)
next
  case (Some r)
  obtain s' rs where r: "r = (s', rs)" by (cases r)
  from Some questRewards_handleLogActivity[of ar s s "ev_type e" "ev_duration e" "ev_inputs e" s' rs]
  show ?thesis by (simp add: applyLog_def r)
qed

lemma applyLog_quest_step:
  assumes "trackerOK s"
  shows "trackerOK (fst (applyLog ar s e))"
    and "questRewards (snd (applyLog ar s e)) =
          (if \<not> bonusClaimed (dailyQuests s) \<and> \<not> allQuestsDone s \<and>
              allQuestsDone (fst (applyLog ar s e))
           then [questBonus] else [])"
    and "bonusClaimed (dailyQuests (fst (applyLog ar s e))) \<longleftrightarrow>
          bonusClaimed (dailyQuests s) \<or> questRewards (snd (applyLog ar s e)) \<noteq> []"
    and "allQuestsDone s \<Longrightarrow> allQuestsDone (fst (applyLog ar s e))"
proof -
  from assms have ok: "distinct (completed (dailyQuests s))"
    "set (completed (dailyQuests s)) \<subseteq> set DAILY_QUESTS"
    by (simp_all add: trackerOK_def)
  note step = dailyQuestLogic_step[OF ok, of "ev_type e"]
  from applyLog_tracker[of ar s e]
  consider (same) "fst (applyLog ar s e) = s" "snd (applyLog ar s e) = []"
    | (logged) "dailyQuests (fst (applyLog ar s e)) =
                  fst (dailyQuestLogic (dailyQuests s) (ev_type e))"
               "questRewards (snd (applyLog ar s e)) =
                  snd (snd (dailyQuestLogic (dailyQuests s) (ev_type e)))"
    by blast
  then have "trackerOK (fst (applyLog ar s e)) \<and>
    questRewards (snd (applyLog ar s e)) =
          (if \<not> bonusClaimed (dailyQuests s) \<and> \<not> allQuestsDone s \<and>
              allQuestsDone (fst (applyLog ar s e))
           then [questBonus] else []) \<and>
    (bonusClaimed (dailyQuests (fst (applyLog ar s e))) \<longleftrightarrow>
          bonusClaimed (dailyQuests s) \<or> questRewards (snd (applyLog ar s e)) \<noteq> []) \<and>
    (allQuestsDone s \<longrightarrow> allQuestsDone (fst (applyLog ar s e)))"
  proof cases
    case same
    with assms show ?thesis by (simp add: questRewards_def)
  next
    case logged
    show ?thesis
      unfolding trackerOK_def allQuestsDone_def logged
      using step by simp
  qed
  then show "trackerOK (fst (applyLog ar s e))"
    and "questRewards (snd (applyLog ar s e)) =
          (if \<not> bonusClaimed (dailyQuests s) \<and> \<not> allQuestsDone s \<and>
              allQuestsDone (fst (applyLog ar s e))
           then [questBonus] else [])"
    and "bonusClaimed (dailyQuests (fst (applyLog ar s e))) \<longleftrightarrow>
          bonusClaimed (dailyQuests s) \<or> questRewards (snd (applyLog ar s e)) \<noteq> []"
    and "allQuestsDone s \<Longrightarrow> allQuestsDone (fst (applyLog ar s e))"
    by simp_all
qed

lemma runLogs_empty_iff [simp]: "runLogs ar s es = [] \<longleftrightarrow> es = []"
  by (cases es) (simp_all add: Let_def)

lemma finalState_Nil [simp]: "finalState ar s [] = s"
  by (simp add: finalState_def)

lemma finalState_Cons [simp]:
  "finalState ar s (e # es) = finalState ar (fst (applyLog ar s e)) es"
  by (simp add: finalState_def Let_def)

lemma finalState_trackerOK: "trackerOK s \<Longrightarrow> trackerOK (finalState ar s es)"
  by (induction es arbitrary: s) (simp_all add: applyLog_quest_step(1))

lemma finalState_stays_done:
  "trackerOK s \<Longrightarrow> allQuestsDone s \<Longrightarrow> allQuestsDone (finalState ar s es)"
  by (induction es arbitrary: s) (simp_all add: applyLog_quest_step(1,4))

text \<open>Between two date checks, that is over any sequence of logs through the handler of
  the latest render, the reward for the daily quests is queued at most once: once when
  the bonus was unclaimed, the four quests were not all done at the start and are all done
  at the end, and never otherwise.\<close>

lemma quest_run:
  assumes "trackerOK s"
  shows "questRewards (concat (map snd (runLogs ar s es))) =
          (if \<not> bonusClaimed (dailyQuests s) \<and> \<not> allQuestsDone s \<and>
              allQuestsDone (finalState ar s es)
           then [questBonus] else [])"
  using assms
proof (induction es arbitrary: s)
  case Nil
  then show ?case by (simp add: questRewards_def)
next
  case (Cons e es)
  define s1 where "s1 = fst (applyLog ar s e)"
  note step = applyLog_quest_step[OF Cons.prems, of ar e, folded s1_def]
  have ih: "questRewards (concat (map snd (runLogs ar s1 es))) =
          (if \<not> bonusClaimed (dailyQuests s1) \<and> \<not> allQuestsDone s1 \<and>
              allQuestsDone (finalState ar s1 es)
           then [questBonus] else [])"
    using Cons.IH[OF step(1)] .
  have stay: "allQuestsDone s1 \<Longrightarrow> allQuestsDone (finalState ar s1 es)"
    using finalState_stays_done[OF step(1)] .
  have run: "questRewards (concat (map snd (runLogs ar s (e # es)))) =
      questRewards (snd (applyLog ar s e)) @ questRewards (concat (map snd (runLogs ar s1 es)))"
    by (simp add: Let_def s1_def)
  have fin: "finalState ar s (e # es) = finalState ar s1 es"
    by (simp add: s1_def)
  show ?case
  proof (cases "questRewards (snd (applyLog ar s e)) = []")
    case True
    with step(3) have bc: "bonusClaimed (dailyQuests s1) = bonusClaimed (dailyQuests s)"
      by simp
    from True step(2) have
      nd: "\<not> (\<not> bonusClaimed (dailyQuests s) \<and> \<not> allQuestsDone s \<and> allQuestsDone s1)"
      by (auto split: if_splits)
    show ?thesis
      unfolding run fin ih True bc using nd step(4) by auto
  next
    case False
    with step(2) have
      e: "questRewards (snd (applyLog ar s e)) = [questBonus]"
        "\<not> bonusClaimed (dailyQuests s)" "\<not> allQuestsDone s" "allQuestsDone s1"
      by (auto split: if_splits)
    from False step(3) have "bonusClaimed (dailyQuests s1)" by simp
    with e stay show ?thesis
      unfolding run fin ih by simp
  qed
qed

text \<open>Every profile the application reaches holds such a tracker.\<close>

lemma reachable_trackerOK: "reachable ar s \<Longrightarrow> trackerOK s"
proof (induction rule: reachable.induct)
  case reach_init
  show ?case by (simp add: trackerOK_def INITIAL_STATE_def)
next
  case (reach_date s today yest)
  then show ?case by (simp add: trackerOK_def initDateCheck_def Let_def)
next
  case (reach_add s a)
  then show ?case by (simp add: trackerOK_def handleAddCustomActivity_def)
next
  case (reach_log g p ty d inp s' rs)
  from reach_log.IH(1) have ok: "distinct (completed (dailyQuests g))"
    "set (completed (dailyQuests g)) \<subseteq> set DAILY_QUESTS"
    by (simp_all add: trackerOK_def)
  from questRewards_handleLogActivity(2)[OF reach_log.hyps(3)] dailyQuestLogic_step(1)[OF ok, of ty]
  show ?case by (simp add: trackerOK_def)
qed

lemma tracker_after_builtin_logs:
  "\<forall>e \<in> set es. ev_type e \<in> set (map atype DEFAULT_ACTIVITIES) \<Longrightarrow>
   dailyQuests (finalState ar s es) =
   foldl (\<lambda>dq e. fst (dailyQuestLogic dq (ev_type e))) (dailyQuests s) es"
  by (induction es arbitrary: s) (simp_all add: applyLog_builtin_tracker)

lemma allQuestsDone_iff_four:
  "trackerOK s \<Longrightarrow> allQuestsDone s \<longleftrightarrow> length (completed (dailyQuests s)) = 4"
  unfolding trackerOK_def allQuestsDone_def by (intro quests_done_iff_four) simp_all

text \<open>The dates of the logs: each logged activity puts a log dated with the day of the
  call in front, the date check leaves the logs alone.\<close>

lemma initDateCheck_logs [simp]: "logs (initDateCheck today yest s) = logs s"
  by (simp add: initDateCheck_def Let_def)

lemma initDateCheck_new_day:
  "dateStr (dailyQuests s) \<noteq> today \<Longrightarrow>
   dailyQuests (initDateCheck today yest s) =
     \<lparr>dateStr = today, completed = [], bonusClaimed = False\<rparr>"
  by (simp add: initDateCheck_def Let_def)

lemma applyLog_builtin_dates:
  assumes "ev_type e \<in> set (map atype DEFAULT_ACTIVITIES)"
  shows "map log_dateStr (logs (fst (applyLog ar s e))) =
         in_todayStr (ev_inputs e) # map log_dateStr (logs s)"
proof -
  from handleLogActivity_builtin[OF assms] obtain s' rs where
    h: "handleLogActivity ar s s (ev_type e) (ev_duration e) (ev_inputs e) = Some (s', rs)"
    by blast
  from h have 1: "logs s' \<noteq> []" by (rule handleLogActivity_partsE)
  from h have 2: "tl (logs s') = logs s" by (rule handleLogActivity_partsE)
  from h have 3: "log_dateStr (hd (logs s')) = in_todayStr (ev_inputs e)"
    by (rule handleLogActivity_partsE)
  from 1 have "logs s' = hd (logs s') # tl (logs s')" by simp
  then have "map log_dateStr (logs s') =
      log_dateStr (hd (logs s')) # map log_dateStr (tl (logs s'))"
    by (metis list.simps(9))
  with 2 3 h show ?thesis by (simp add: applyLog_def)
qed

lemma finalState_builtin_dates:
  "\<forall>e \<in> set es. ev_type e \<in> set (map atype DEFAULT_ACTIVITIES) \<Longrightarrow>
   map log_dateStr (logs (finalState ar s es)) =
   rev (map (\<lambda>e. in_todayStr (ev_inputs e)) es) @ map log_dateStr (logs s)"
  by (induction es arbitrary: s) (simp_all add: applyLog_builtin_dates)

lemma fourQuests_builtin:
  "\<forall>e \<in> set fourQuests. ev_type e \<in> set (map atype DEFAULT_ACTIVITIES)"
  by (simp add: fourQuests_def quietLog_def DEFAULT_ACTIVITIES_def)

lemma fourQuests_tracker:
  "foldl (\<lambda>dq e. fst (dailyQuestLogic dq (ev_type e)))
     \<lparr>dateStr = day, completed = [], bonusClaimed = False\<rparr> fourQuests =
   \<lparr>dateStr = day, completed = [''Workout'', ''Reading'', ''Work/Study'', ''Meditation''],
     bonusClaimed = True\<rparr>"
  by (simp add: fourQuests_def quietLog_def dailyQuestLogic_def DAILY_QUESTS_def)

lemma fresh_tracker_run:
  assumes "dailyQuests s = \<lparr>dateStr = day, completed = [], bonusClaimed = False\<rparr>"
  shows "dailyQuests (finalState ar s fourQuests) =
           \<lparr>dateStr = day, completed = [''Workout'', ''Reading'', ''Work/Study'', ''Meditation''],
             bonusClaimed = True\<rparr>"
    and "questRewards (concat (map snd (runLogs ar s fourQuests))) = [questBonus]"
proof -
  show t4: "dailyQuests (finalState ar s fourQuests) =
           \<lparr>dateStr = day, completed = [''Workout'', ''Reading'', ''Work/Study'', ''Meditation''],
             bonusClaimed = True\<rparr>"
    unfolding tracker_after_builtin_logs[OF fourQuests_builtin] assms
    by (rule fourQuests_tracker)
  have ok: "trackerOK s"
    by (simp add: trackerOK_def assms)
  then have ok4: "trackerOK (finalState ar s fourQuests)"
    by (rule finalState_trackerOK)
  have n0: "\<not> allQuestsDone s"
    unfolding allQuestsDone_iff_four[OF ok] by (simp add: assms)
  have d4: "allQuestsDone (finalState ar s fourQuests)"
    unfolding allQuestsDone_iff_four[OF ok4] by (simp add: t4)
  have b0: "\<not> bonusClaimed (dailyQuests s)"
    by (simp add: assms)
  from quest_run[OF ok, of ar fourQuests] n0 d4 b0
  show "questRewards (concat (map snd (runLogs ar s fourQuests))) = [questBonus]"
    by simp
qed

lemma startedDayBefore_tracker:
  "dailyQuests startedDayBefore = \<lparr>dateStr = ''2024-01-01'', completed = [], bonusClaimed = False\<rparr>"
  by (simp add: startedDayBefore_def initDateCheck_def INITIAL_STATE_def)

lemma restarted_reachable:
  "reachable ar (finalState ar (restarted ar) fourQuests)"
proof -
  have run: "reachable ar (finalState ar s es)" if "reachable ar s" for s es
    using that
  proof (induction es arbitrary: s)
    case Nil
    then show ?case by simp
  next
    case (Cons e es)
    have "reachable ar (fst (applyLog ar s e))"
    proof (cases "handleLogActivity ar s s (ev_type e) (ev_duration e) (ev_inputs e)")
      case None
      with Cons.prems show ?thesis by (simp add: applyLog_def)
    next
      case (Some r)
      obtain s' rs where r: "r = (s', rs)" by (cases r)
      from reach_log[OF Cons.prems Cons.prems Some[unfolded r]] Some r
      show ?thesis by (simp add: applyLog_def)
    qed
    from Cons.IH[OF this] show ?case by simp
  qed
  have "reachable ar startedDayBefore"
    unfolding startedDayBefore_def by (rule reach_date[OF reach_init])
  then have "reachable ar (finalState ar startedDayBefore fourQuests)"
    by (rule run)
  then have "reachable ar (restarted ar)"
    unfolding restarted_def by (rule reach_date)
  then show ?thesis by (rule run)
qed

text \<open>
  Claim C6. The claim asks that the 80 XP reward for the daily quests is emitted once on
  a calendar day and never again that day. The handler never compares the date of the
  tracker with the day of the log; only the date check at start-up replaces the tracker.
  The application is started on 1 January and stays open over midnight. On 2 January the
  four quests are logged: the tracker, still dated 1 January, is completed and the reward
  is queued. The application is then started again on 2 January: the date check finds the
  tracker dated 1 January and replaces it by an empty one with the bonus unclaimed. The four
  quests are logged again and the reward is queued a second time. All eight logs are dated
  2 January. Every call is made through the handler of the latest render.
\<close>

theorem quest_bonus_twice_on_one_day:
  "dailyQuests startedDayBefore =
     \<lparr>dateStr = ''2024-01-01'', completed = [], bonusClaimed = False\<rparr> \<and>
   questRewards (concat (map snd (runLogs ar startedDayBefore fourQuests))) = [questBonus] \<and>
   dailyQuests (finalState ar startedDayBefore fourQuests) =
     \<lparr>dateStr = ''2024-01-01'',
      completed = [''Workout'', ''Reading'', ''Work/Study'', ''Meditation''],
      bonusClaimed = True\<rparr> \<and>
   dailyQuests (restarted ar) =
     \<lparr>dateStr = ''2024-01-02'', completed = [], bonusClaimed = False\<rparr> \<and>
   questRewards (concat (map snd (runLogs ar (restarted ar) fourQuests))) = [questBonus] \<and>
   map log_dateStr (logs (finalState ar (restarted ar) fourQuests)) =
     replicate 8 ''2024-01-02'' \<and>
   xp questBonus = Some 80"
proof -
  note t0 = startedDayBefore_tracker
  note first = fresh_tracker_run[OF t0, of ar]
  have r0: "dailyQuests (restarted ar) =
      \<lparr>dateStr = ''2024-01-02'', completed = [], bonusClaimed = False\<rparr>"
    unfolding restarted_def by (rule initDateCheck_new_day) (simp add: first(1))
  note second = fresh_tracker_run[OF r0, of ar]
  have l0: "logs startedDayBefore = []"
    by (simp add: startedDayBefore_def INITIAL_STATE_def)
  have dates: "map log_dateStr (logs (finalState ar (restarted ar) fourQuests)) =
      replicate 8 ''2024-01-02''"
    unfolding finalState_builtin_dates[OF fourQuests_builtin] restarted_def initDateCheck_logs l0
    by (simp add: fourQuests_def quietLog_def quietInputs_def numeral_eq_Suc)
  have x: "xp questBonus = Some 80"
    by (simp add: questBonus_def)
  show ?thesis
    by (intro conjI t0 first r0 second dates x)
qed

end
